theory Spec2Isabelle
  imports Complex_Main "HOL-Library.AList"
begin

section \<open>Python values, dictionaries and arrays\<close>

text \<open>
  The records of the repository are Python dictionaries (\<^verbatim>\<open>Dict[str, Any]\<close>) whose
  values are the cells of a CSV or JSON file: \<^verbatim>\<open>None\<close>, a text, a Boolean, an integer
  or a float. A finite float carries the text that \<^verbatim>\<open>str()\<close> gives for it; the floats
  that are no numbers are \<^verbatim>\<open>nan\<close>, \<^verbatim>\<open>inf\<close> and \<^verbatim>\<open>-inf\<close>. These values pass
  through \<^verbatim>\<open>json.dump\<close> and \<^verbatim>\<open>json.load\<close> unchanged. A dictionary is an
  association list (the first pair of a key is the one that counts), so that
  \<^verbatim>\<open>d.get(k)\<close>, \<^verbatim>\<open>d.get(k, default)\<close> and \<^verbatim>\<open>d[k]\<close> tell an absent key from a
  key that holds \<^verbatim>\<open>None\<close>, as Python does.
\<close>

datatype pyval =
    PNone | PStr string | PBool bool | PInt int | PFloat real string | PNaN | PPosInf | PNegInf

type_synonym pydict = "(string \<times> pyval) list"

datatype error = ValueError | KeyError | UnboundLocalError

definition dget :: "pydict \<Rightarrow> string \<Rightarrow> pyval" where
  "dget d k = (case map_of d k of None \<Rightarrow> PNone | Some v \<Rightarrow> v)"

definition dget_default :: "pydict \<Rightarrow> string \<Rightarrow> pyval \<Rightarrow> pyval" where
  "dget_default d k dflt = (case map_of d k of None \<Rightarrow> dflt | Some v \<Rightarrow> v)"

text \<open>Truth value: zero, the empty text and \<^verbatim>\<open>None\<close> are false; \<^verbatim>\<open>nan\<close> is true.\<close>

fun truthy :: "pyval \<Rightarrow> bool" where
  "truthy PNone = False"
| "truthy (PStr s) = (s \<noteq> [])"
| "truthy (PBool b) = b"
| "truthy (PInt i) = (i \<noteq> 0)"
| "truthy (PFloat r s) = (r \<noteq> 0)"
| "truthy PNaN = True"
| "truthy PPosInf = True"
| "truthy PNegInf = True"

text \<open>\<^verbatim>\<open>str()\<close>; an integer is written in decimal digits.\<close>

fun digits10 :: "nat \<Rightarrow> string" where
  "digits10 n =
     (if n < 10 then [char_of (48 + n)] else digits10 (n div 10) @ [char_of (48 + n mod 10)])"

declare digits10.simps [simp del]

definition str_int :: "int \<Rightarrow> string" where
  "str_int i = (if i < 0 then CHR ''-'' # digits10 (nat (- i)) else digits10 (nat i))"

fun py_str :: "pyval \<Rightarrow> string" where
  "py_str PNone = ''None''"
| "py_str (PStr s) = s"
| "py_str (PBool b) = (if b then ''True'' else ''False'')"
| "py_str (PInt i) = str_int i"
| "py_str (PFloat r s) = s"
| "py_str PNaN = ''nan''"
| "py_str PPosInf = ''inf''"
| "py_str PNegInf = ''-inf''"

definition py_or :: "pyval \<Rightarrow> pyval \<Rightarrow> pyval" where
  "py_or a b = (if truthy a then a else b)"

text \<open>
  The operators \<^verbatim>\<open>==\<close> and \<^verbatim>\<open>!=\<close>: numbers (Booleans among them) compare by
  value, \<^verbatim>\<open>nan\<close> equals nothing, not even itself, and values of different kinds differ.
\<close>

fun num_of :: "pyval \<Rightarrow> real option" where
  "num_of (PBool b) = Some (if b then 1 else 0)"
| "num_of (PInt i) = Some (of_int i)"
| "num_of (PFloat r s) = Some r"
| "num_of v = None"

definition py_eq :: "pyval \<Rightarrow> pyval \<Rightarrow> bool" where
  "py_eq a b =
     (case (num_of a, num_of b) of
        (Some x, Some y) \<Rightarrow> x = y
      | (None, None) \<Rightarrow> a = b \<and> a \<noteq> PNaN
      | _ \<Rightarrow> False)"

definition py_ne :: "pyval \<Rightarrow> pyval \<Rightarrow> bool" where
  "py_ne a b = (\<not> py_eq a b)"

text \<open>
  A float32 matrix is its column count and its rows; a saved \<^verbatim>\<open>.npy\<close> file holds
  a two-dimensional array or an array of another rank. A float is modelled by the real
  number it denotes. No floating-point arithmetic is done in this theory: the encoder
  and the dot product of normalised vectors are parameters.
\<close>

datatype matrix = Matrix (ncols: nat) (rows: "real list list")

datatype npy = Npy2D matrix | NpyOther

definition nrows :: "matrix \<Rightarrow> nat" where
  "nrows m = length (rows m)"

definition msize :: "matrix \<Rightarrow> nat" where
  "msize m = nrows m * ncols m"

section \<open>The persisted files\<close>

text \<open>
  The metadata file is a JSON object from row index to metadata entry. Its keys are the
  decimal texts \<^verbatim>\<open>str(i)\<close>; a key is modelled by the integer \<^verbatim>\<open>int(k)\<close> it
  denotes, an object by the list of its items in file order. A file that does not exist
  is \<open>None\<close>. The assignee files are described with \<open>assign_lru\<close> below.
\<close>

type_synonym meta = "(int \<times> pydict) list"

datatype csv = CsvRows "string option list" | CsvUnreadable

record fs =
  meta_file :: "meta option"
  emb_file :: "npy option"
  ann_file :: "real list list option"
  assignee_csv :: "csv option"
  assignee_json :: "string option list option"

section \<open>Index.py: the vector store and the incremental indexer\<close>

text \<open>\<^verbatim>\<open>_load_meta_embs(meta_path, emb_path, dim)\<close>\<close>

definition load_meta_embs :: "fs \<Rightarrow> nat \<Rightarrow> error + (meta \<times> matrix)" where
  "load_meta_embs st edim =
     (case (meta_file st, emb_file st) of
        (Some meta, Some arr) \<Rightarrow>
          (case arr of
             NpyOther \<Rightarrow> Inl ValueError
           | Npy2D embs \<Rightarrow> if ncols embs \<noteq> edim then Inl ValueError else Inr (meta, embs))
      | _ \<Rightarrow> Inr ([], Matrix edim []))"

text \<open>\<^verbatim>\<open>_save_meta_embs(meta, embs, meta_path, emb_path)\<close>\<close>

definition save_meta_embs :: "meta \<Rightarrow> matrix \<Rightarrow> fs \<Rightarrow> fs" where
  "save_meta_embs meta embs st = st\<lparr>meta_file := Some meta, emb_file := Some (Npy2D embs)\<rparr>"

text \<open>
  \<^verbatim>\<open>_build_and_save_annoy\<close>: the artifact is rebuilt from all rows, or removed when
  there is no row. The artifact is opaque; it is modelled by the rows it was built from.
\<close>

definition build_and_save_annoy :: "matrix \<Rightarrow> fs \<Rightarrow> fs" where
  "build_and_save_annoy embs st =
     (if nrows embs = 0 then st\<lparr>ann_file := None\<rparr> else st\<lparr>ann_file := Some (rows embs)\<rparr>)"

text \<open>
  The configuration options the indexer reads (\<^verbatim>\<open>EmbedDim\<close>, \<^verbatim>\<open>KeyField\<close>); the
  others are file paths and library settings.
\<close>

record index_cfg =
  embed_dim :: nat
  key_field :: string

text \<open>
  The embedding service is external: \<^verbatim>\<open>model.encode(texts)\<close> followed by the
  L2 normalisation and the cast to float32 gives one vector of \<open>enc_dim\<close> numbers for
  each text.
\<close>

record encoder =
  enc_dim :: nat
  enc_vec :: "pyval \<Rightarrow> real list"

definition encode :: "encoder \<Rightarrow> pyval list \<Rightarrow> matrix" where
  "encode model texts = Matrix (enc_dim model) (map (enc_vec model) texts)"

text \<open>\<^verbatim>\<open>np.vstack([a, b])\<close> raises when the column counts differ.\<close>

definition vstack :: "matrix \<Rightarrow> matrix \<Rightarrow> error + matrix" where
  "vstack a b =
     (if ncols a \<noteq> ncols b then Inl ValueError else Inr (Matrix (ncols a) (rows a @ rows b)))"

text \<open>
  \<^verbatim>\<open>str(t.get(key_field) or t.get("Issue id") or t.get("Summary") or "")\<close>, which is
  also \<^verbatim>\<open>_safe_key\<close> of Reference_Issue.py.
\<close>

definition safe_key :: "pydict \<Rightarrow> string \<Rightarrow> string" where
  "safe_key t kf =
     py_str (py_or (dget t kf)
              (py_or (dget t ''Issue id'') (py_or (dget t ''Summary'') (PStr ''''))))"

text \<open>
  \<^verbatim>\<open>{v["key"]: int(k) for k, v in meta.items()}\<close>: a later item replaces an earlier one
  of the same key, and an entry without \<^verbatim>\<open>"key"\<close> raises \<^verbatim>\<open>KeyError\<close>. The
  dictionary is only ever asked for a text key, which equals no value of another kind.
\<close>

fun key_to_idx :: "meta \<Rightarrow> (pyval \<times> int) list \<Rightarrow> error + (pyval \<times> int) list" where
  "key_to_idx [] acc = Inr acc"
| "key_to_idx ((k, v) # rest) acc =
     (case map_of v ''key'' of
        None \<Rightarrow> Inl KeyError
      | Some kv \<Rightarrow> key_to_idx rest (AList.update kv k acc))"

definition existing_key_to_idx :: "meta \<Rightarrow> error + (pyval \<times> int) list" where
  "existing_key_to_idx meta = key_to_idx meta []"

text \<open>The first-run loop: the text and the metadata entry of every record that has a key.\<close>

fun first_build_items :: "string \<Rightarrow> pydict list \<Rightarrow> (pyval \<times> pydict) list" where
  "first_build_items kf [] = []"
| "first_build_items kf (t # ts) =
     (let key = safe_key t kf in
      if key = [] then first_build_items kf ts
      else (dget_default t ''Summary'' (PStr ''''),
            [(''key'', PStr key), (''Issue id'', dget t ''Issue id''),
             (''Issue key'', dget t ''Issue key''), (''Summary'', dget t ''Summary''),
             (''Assignee'', dget t ''Assignee'')])
           # first_build_items kf ts)"

text \<open>
  The test of the incremental loop: the key is not in \<open>existing\<close>, or the row it points
  to is missing or empty, or its stored summary or assignee differs.
\<close>

definition new_or_changed ::
  "(pyval \<times> int) list \<Rightarrow> meta \<Rightarrow> string \<Rightarrow> pyval \<Rightarrow> pyval \<Rightarrow> bool" where
  "new_or_changed existing meta key summary assignee =
     (case map_of existing (PStr key) of
        None \<Rightarrow> True
      | Some idx \<Rightarrow>
          (case map_of meta idx of
             None \<Rightarrow> True
           | Some stored \<Rightarrow>
               stored = [] \<or> py_ne (dget stored ''Summary'') summary
               \<or> py_ne (dget stored ''Assignee'') assignee))"

fun incremental_items ::
  "string \<Rightarrow> (pyval \<times> int) list \<Rightarrow> meta \<Rightarrow> pydict list \<Rightarrow> (pyval \<times> pydict) list" where
  "incremental_items kf existing meta [] = []"
| "incremental_items kf existing meta (t # ts) =
     (let key = safe_key t kf in
      if key = [] then incremental_items kf existing meta ts
      else
        let summary = dget_default t ''Summary'' (PStr '''');
            assignee = dget t ''Assignee''
        in if new_or_changed existing meta key summary assignee
           then (summary,
                 [(''key'', PStr key), (''Issue id'', dget t ''Issue id''),
                  (''Issue key'', dget t ''Issue key''), (''Summary'', summary),
                  (''Assignee'', assignee)])
                # incremental_items kf existing meta ts
           else incremental_items kf existing meta ts)"

text \<open>\<^verbatim>\<open>for i, m in enumerate(metas_to_add): meta[str(n_before + i)] = m\<close>\<close>

fun add_metas :: "nat \<Rightarrow> pydict list \<Rightarrow> meta \<Rightarrow> meta" where
  "add_metas n [] meta = meta"
| "add_metas n (m # ms) meta = add_metas (Suc n) ms (AList.update (int n) m meta)"

datatype status = no_data | built_from_all | no_new_or_changed | incremental_ok

record index_result =
  status :: status
  added :: nat
  index_size :: nat

text \<open>\<^verbatim>\<open>add_index_new_Data(issues, cfg)\<close>, with the files it reads and writes.\<close>

definition add_index_new_Data ::
  "encoder \<Rightarrow> pydict list \<Rightarrow> index_cfg \<Rightarrow> fs \<Rightarrow> error + (index_result \<times> fs)" where
  "add_index_new_Data model issues cfg st =
     (case load_meta_embs st (embed_dim cfg) of
        Inl e \<Rightarrow> Inl e
      | Inr (meta, embs) \<Rightarrow>
          (case existing_key_to_idx meta of
             Inl e \<Rightarrow> Inl e
           | Inr existing \<Rightarrow>
               if meta = [] then
                 (let items = first_build_items (key_field cfg) issues;
                      texts = map fst items;
                      metas = map snd items
                  in if texts = []
                     then Inr (\<lparr>status = no_data, added = 0, index_size = 0\<rparr>, st)
                     else
                       let new_embs = encode model texts;
                           meta' = zip (map int [0..<length metas]) metas;
                           st' = build_and_save_annoy new_embs (save_meta_embs meta' new_embs st)
                       in Inr (\<lparr>status = built_from_all, added = length metas,
                                 index_size = nrows new_embs\<rparr>, st'))
               else
                 (let items = incremental_items (key_field cfg) existing meta issues;
                      texts_to_embed = map fst items;
                      metas_to_add = map snd items
                  in if texts_to_embed = []
                     then Inr (\<lparr>status = no_new_or_changed, added = 0,
                                 index_size = nrows embs\<rparr>, st)
                     else
                       let new_embs = encode model texts_to_embed
                       in case (if msize embs = 0 then Inr new_embs else vstack embs new_embs) of
                            Inl e \<Rightarrow> Inl e
                          | Inr embs' \<Rightarrow>
                              let n_before = length meta;
                                  meta' = add_metas n_before metas_to_add meta;
                                  st' = build_and_save_annoy embs' (save_meta_embs meta' embs' st)
                              in Inr (\<lparr>status = incremental_ok, added = length metas_to_add,
                                        index_size = nrows embs'\<rparr>, st'))))"

section \<open>Pot_Assignee.py: the round-robin assignee picker\<close>

text \<open>
  \<^verbatim>\<open>str.strip()\<close> and \<^verbatim>\<open>str.lower()\<close> on ASCII text: the white space of
  \<^verbatim>\<open>str.isspace\<close> below code 128, and the letters A to Z.
\<close>

definition is_space :: "char \<Rightarrow> bool" where
  "is_space c = ((of_char c :: nat) \<in> {9, 10, 11, 12, 13, 28, 29, 30, 31, 32})"

definition py_strip :: "string \<Rightarrow> string" where
  "py_strip s = rev (dropWhile is_space (rev (dropWhile is_space s)))"

definition lower_char :: "char \<Rightarrow> char" where
  "lower_char c =
     (if 65 \<le> (of_char c :: nat) \<and> (of_char c :: nat) \<le> 90
      then char_of ((of_char c :: nat) + 32) else c)"

definition py_lower :: "string \<Rightarrow> string" where
  "py_lower s = map lower_char s"

definition placeholder :: "string \<Rightarrow> bool" where
  "placeholder a = (py_lower a \<in> set ['''', ''none'', ''null'', ''unassigned'', ''n/a''])"

text \<open>
  The CSV file is the list of its rows' \<^verbatim>\<open>assignee\<close> cells (\<open>None\<close> for a row
  without one), or a file whose reading raises. The loop keeps the first occurrence of
  every usable name, in order, as the \<^verbatim>\<open>OrderedDict\<close> does.
\<close>

fun read_csv_assignees :: "string option list \<Rightarrow> string list \<Rightarrow> string list" where
  "read_csv_assignees [] lru = lru"
| "read_csv_assignees (r # rs) lru =
     (let a = py_strip (case r of None \<Rightarrow> [] | Some s \<Rightarrow> s) in
      if a \<noteq> [] \<and> \<not> placeholder a \<and> a \<notin> set lru
      then read_csv_assignees rs (lru @ [a])
      else read_csv_assignees rs lru)"

text \<open>
  \<^verbatim>\<open>_load_assignees_from_json\<close>: the JSON file is the list, for every item of its
  issue list, of what \<^verbatim>\<open>_extract_assignee\<close> returns (\<open>None\<close> for an item that
  is no dictionary or has no assignee). A missing file gives no assignee.
\<close>

fun json_assignees :: "string option list \<Rightarrow> string list \<Rightarrow> string list" where
  "json_assignees [] lru = lru"
| "json_assignees (a # as) lru =
     (case a of
        None \<Rightarrow> json_assignees as lru
      | Some s \<Rightarrow>
          if s \<noteq> [] \<and> s \<notin> set lru then json_assignees as (lru @ [s])
          else json_assignees as lru)"

definition load_assignees_from_json :: "fs \<Rightarrow> string list" where
  "load_assignees_from_json st =
     (case assignee_json st of None \<Rightarrow> [] | Some items \<Rightarrow> json_assignees items [])"

text \<open>
  \<^verbatim>\<open>assign_lru\<close>: the first name is returned and moved to the end, and the CSV file
  is written again in the new order.
\<close>

definition assign_lru :: "fs \<Rightarrow> string option \<times> fs" where
  "assign_lru st =
     (let lru =
        (case assignee_csv st of
           Some f \<Rightarrow>
             (let l = (case f of CsvRows rs \<Rightarrow> read_csv_assignees rs [] | CsvUnreadable \<Rightarrow> [])
              in if l = [] \<and> assignee_json st \<noteq> None then load_assignees_from_json st else l)
         | None \<Rightarrow> load_assignees_from_json st)
      in case lru of
           [] \<Rightarrow> (None, st)
         | assignee # others \<Rightarrow>
             (Some assignee, st\<lparr>assignee_csv := Some (CsvRows (map Some (others @ [assignee])))\<rparr>))"

section \<open>Reference_Issue.py: the similarity retrieval engine\<close>

record reference =
  ref_idx :: nat
  ref_key :: string
  ref_issue_id :: pyval
  ref_summary :: pyval
  ref_score :: real

datatype meta_sample = SEntry pydict | SNone | SText string

text \<open>
  The diagnostics of a scored record. \<^verbatim>\<open>row_mean\<close> is a floating-point mean and is
  left out; \<^verbatim>\<open>returned_count\<close> is absent when the store has no row.
\<close>

record scored =
  row_size :: nat
  row_max :: "real option"
  row_min :: "real option"
  n_above_threshold :: nat
  top_candidates_before_filter :: "(nat \<times> real \<times> meta_sample) list"
  self_skips :: "(nat \<times> string) list"
  threshold_filtered :: "(nat \<times> real) list"
  returned_count :: "nat option"

datatype diagnostics =
    MissingFiles bool bool
  | DimMismatch nat nat
  | Scored scored

record result =
  input_key :: string
  input_summary :: pyval
  references :: "reference list"
  diagnostics :: diagnostics

text \<open>The function returns a list on its early paths and a pair after scoring.\<close>

datatype retval = RList "result list" | RPair "result list" "string option"

fun results_of :: "retval \<Rightarrow> result list" where
  "results_of (RList rs) = rs"
| "results_of (RPair rs pa) = rs"

text \<open>
  \<^verbatim>\<open>np.argsort(-row)\<close>: the row indices by descending score. numpy does not fix the
  order of equal scores; here the smaller index comes first.
\<close>

definition argsort_desc :: "real list \<Rightarrow> nat list" where
  "argsort_desc row = sort_key (\<lambda>j. - (row ! j)) [0..<length row]"

text \<open>The slice \<^verbatim>\<open>xs[:n]\<close>; a negative \<open>n\<close> counts from the end.\<close>

definition py_upto :: "int \<Rightarrow> 'a list \<Rightarrow> 'a list" where
  "py_upto n xs = (if 0 \<le> n then take (nat n) xs else take (length xs - nat (- n)) xs)"

definition candidate_key :: "pydict \<Rightarrow> string" where
  "candidate_key meta_entry =
     py_str (py_or (dget meta_entry ''key'')
              (py_or (dget meta_entry ''Issue key'')
                (py_or (dget meta_entry ''Issue id'') (PStr ''''))))"

record scan_state =
  refs :: "reference list"
  skips :: "(nat \<times> string) list"
  filtered :: "(nat \<times> real) list"

text \<open>
  The loop over \<^verbatim>\<open>top_idxs\<close>: a row without metadata is passed over, then a
  candidate with the query's own key, then one below the threshold; the loop stops once
  \<open>top_k\<close> references are collected. Every index comes from \<open>argsort_desc row\<close> and is
  below \<open>length row\<close>.
\<close>

fun scan ::
  "(int \<Rightarrow> pydict option) \<Rightarrow> string \<Rightarrow> real list \<Rightarrow> real \<Rightarrow> int \<Rightarrow> bool \<Rightarrow>
   nat list \<Rightarrow> scan_state \<Rightarrow> scan_state" where
  "scan idx_to_meta key row thr top_k debug [] s = s"
| "scan idx_to_meta key row thr top_k debug (idx # rest) s =
     (case idx_to_meta (int idx) of
        None \<Rightarrow> scan idx_to_meta key row thr top_k debug rest s
      | Some meta_entry \<Rightarrow>
          if meta_entry = [] then scan idx_to_meta key row thr top_k debug rest s
          else
            let ck = candidate_key meta_entry in
            if ck \<noteq> [] \<and> key \<noteq> [] \<and> ck = key
            then scan idx_to_meta key row thr top_k debug rest
                   (if debug then s\<lparr>skips := skips s @ [(idx, ck)]\<rparr> else s)
            else
              let score = row ! idx in
              if score < thr
              then scan idx_to_meta key row thr top_k debug rest
                     (s\<lparr>filtered := filtered s @ [(idx, score)]\<rparr>)
              else
                let s' = s\<lparr>refs := refs s @
                           [\<lparr>ref_idx = idx, ref_key = ck,
                             ref_issue_id = dget meta_entry ''Issue id'',
                             ref_summary = dget meta_entry ''Summary'',
                             ref_score = score\<rparr>]\<rparr>
                in if top_k \<le> int (length (refs s')) then s'
                   else scan idx_to_meta key row thr top_k debug rest s')"

definition sample_of :: "bool \<Rightarrow> pydict option \<Rightarrow> meta_sample" where
  "sample_of debug meta_entry =
     (case meta_entry of
        Some d \<Rightarrow> SEntry d
      | None \<Rightarrow> if debug then SText ''None'' else SNone)"

text \<open>The body of the loop over the query records, for one record and its row of scores.\<close>

definition score_issue ::
  "(int \<Rightarrow> pydict option) \<Rightarrow> string \<Rightarrow> int \<Rightarrow> real \<Rightarrow> bool \<Rightarrow> pydict \<Rightarrow> real list \<Rightarrow> result"
  where
  "score_issue idx_to_meta kf top_k thr debug issue row =
     (let key = safe_key issue kf;
          summary = dget_default issue ''Summary'' (PStr '''')
      in if row = []
         then \<lparr>input_key = key, input_summary = summary, references = [],
                diagnostics = Scored
                  \<lparr>row_size = 0, row_max = None, row_min = None, n_above_threshold = 0,
                   top_candidates_before_filter = [], self_skips = [],
                   threshold_filtered = [], returned_count = None\<rparr>\<rparr>
         else
           let top_idxs = py_upto (top_k * 2) (argsort_desc row);
               cands = map (\<lambda>idx. (idx, row ! idx, sample_of debug (idx_to_meta (int idx))))
                         (take (min (length top_idxs) 10) top_idxs);
               s = scan idx_to_meta key row thr top_k debug top_idxs
                     \<lparr>refs = [], skips = [], filtered = []\<rparr>
           in \<lparr>input_key = key, input_summary = summary, references = refs s,
                diagnostics = Scored
                  \<lparr>row_size = length row, row_max = Some (Max (set row)),
                   row_min = Some (Min (set row)),
                   n_above_threshold = length (filter (\<lambda>x. thr \<le> x) row),
                   top_candidates_before_filter = cands, self_skips = skips s,
                   threshold_filtered = filtered s,
                   returned_count = Some (length (refs s))\<rparr>\<rparr>)"

text \<open>
  The row \<^verbatim>\<open>sims[i]\<close>: \<open>sim q v\<close> is the float32 dot product of the normalised
  query vector \<open>q\<close> and the normalised stored row \<open>v\<close>.
\<close>

definition sims_row :: "(real list \<Rightarrow> real list \<Rightarrow> real) \<Rightarrow> real list \<Rightarrow> matrix \<Rightarrow> real list" where
  "sims_row sim q stored = map (sim q) (rows stored)"

text \<open>
  The loop over the query records. A record whose row of scores is empty (a store of
  zero rows) takes the \<^verbatim>\<open>continue\<close>; after any other record \<open>assign_lru\<close> is
  called. \<open>pa\<close> is the variable \<^verbatim>\<open>potential_assignee\<close>: \<open>None\<close> while it is
  unbound, then the value of the last call.
\<close>

fun score_loop ::
  "encoder \<Rightarrow> (real list \<Rightarrow> real list \<Rightarrow> real) \<Rightarrow> matrix \<Rightarrow> (int \<Rightarrow> pydict option) \<Rightarrow>
   string \<Rightarrow> int \<Rightarrow> real \<Rightarrow> bool \<Rightarrow> pydict list \<Rightarrow> string option option \<Rightarrow> fs \<Rightarrow>
   result list \<times> string option option \<times> fs" where
  "score_loop model sim stored idx_to_meta kf top_k thr debug [] pa st = ([], pa, st)"
| "score_loop model sim stored idx_to_meta kf top_k thr debug (issue # rest) pa st =
     (let row = sims_row sim (enc_vec model (dget_default issue ''Summary'' (PStr ''''))) stored;
          r = score_issue idx_to_meta kf top_k thr debug issue row
      in if row = []
         then
           let (rs, pa'', st'') =
                 score_loop model sim stored idx_to_meta kf top_k thr debug rest pa st
           in (r # rs, pa'', st'')
         else
           let (pa', st') = assign_lru st;
               (rs, pa'', st'') =
                 score_loop model sim stored idx_to_meta kf top_k thr debug rest (Some pa') st'
           in (r # rs, pa'', st''))"

definition missing_result :: "string \<Rightarrow> bool \<Rightarrow> bool \<Rightarrow> pydict \<Rightarrow> result" where
  "missing_result kf emb_exists meta_found i =
     \<lparr>input_key = safe_key i kf, input_summary = dget_default i ''Summary'' (PStr ''''),
      references = [], diagnostics = MissingFiles emb_exists meta_found\<rparr>"

definition mismatch_result :: "string \<Rightarrow> nat \<Rightarrow> nat \<Rightarrow> pydict \<Rightarrow> result" where
  "mismatch_result kf q_dim stored_dim issue =
     \<lparr>input_key = safe_key issue kf, input_summary = dget_default issue ''Summary'' (PStr ''''),
      references = [], diagnostics = DimMismatch q_dim stored_dim\<rparr>"

text \<open>
  \<^verbatim>\<open>find_reference_issues\<close>. \<open>meta_file\<close> is the first of the candidate metadata
  files that exists; \<^verbatim>\<open>{int(k): v for k, v in meta.items()}\<close> keeps the last item of
  a row index. The final \<^verbatim>\<open>return results, potential_assignee\<close> raises when the
  variable was never bound.
\<close>

definition find_reference_issues ::
  "encoder \<Rightarrow> (real list \<Rightarrow> real list \<Rightarrow> real) \<Rightarrow> pydict list \<Rightarrow> fs \<Rightarrow> string \<Rightarrow> int \<Rightarrow>
   real \<Rightarrow> bool \<Rightarrow> error + (retval \<times> fs)" where
  "find_reference_issues model sim issues st kf top_k thr debug =
     (case (emb_file st, meta_file st) of
        (Some arr, Some meta) \<Rightarrow>
          (case arr of
             NpyOther \<Rightarrow> Inl ValueError
           | Npy2D stored \<Rightarrow>
               if issues = [] then Inr (RList [], st)
               else if enc_dim model \<noteq> ncols stored
               then Inr (RList (map (mismatch_result kf (enc_dim model) (ncols stored)) issues), st)
               else
                 let (rs, pa, st') =
                       score_loop model sim stored (map_of (rev meta)) kf top_k thr debug
                         issues None st
                 in case pa of
                      None \<Rightarrow> Inl UnboundLocalError
                    | Some a \<Rightarrow> Inr (RPair rs a, st'))
      | (emb, meta) \<Rightarrow>
          Inr (RList (map (missing_result kf (emb \<noteq> None) (meta \<noteq> None)) issues), st))"

section \<open>Notions used to state the properties\<close>

text \<open>
  What the loop \<open>scan\<close> does with one row index: the reference it appends, or \<open>None\<close>
  when the row has no metadata, carries the query's own key or scores below the threshold.
\<close>

definition candidate_ref ::
  "(int \<Rightarrow> pydict option) \<Rightarrow> string \<Rightarrow> real list \<Rightarrow> real \<Rightarrow> nat \<Rightarrow> reference option" where
  "candidate_ref idx_to_meta key row thr idx =
     (case idx_to_meta (int idx) of
        None \<Rightarrow> None
      | Some meta_entry \<Rightarrow>
          if meta_entry = [] then None
          else if candidate_key meta_entry \<noteq> [] \<and> key \<noteq> [] \<and> candidate_key meta_entry = key
          then None
          else if row ! idx < thr then None
          else Some \<lparr>ref_idx = idx, ref_key = candidate_key meta_entry,
                      ref_issue_id = dget meta_entry ''Issue id'',
                      ref_summary = dget meta_entry ''Summary'',
                      ref_score = row ! idx\<rparr>)"

text \<open>
  The specification's selection, in its words: all stored rows are ranked by descending
  score, and the first \<open>top_k\<close> that survive are returned.
\<close>

definition spec_references ::
  "(int \<Rightarrow> pydict option) \<Rightarrow> string \<Rightarrow> real list \<Rightarrow> real \<Rightarrow> int \<Rightarrow> reference list" where
  "spec_references idx_to_meta key row thr top_k =
     take (nat top_k) (List.map_filter (candidate_ref idx_to_meta key row thr) (argsort_desc row))"

text \<open>The selection restricted to the \<open>2 * top_k\<close> best-ranked rows.\<close>

definition window_references ::
  "(int \<Rightarrow> pydict option) \<Rightarrow> string \<Rightarrow> real list \<Rightarrow> real \<Rightarrow> int \<Rightarrow> reference list" where
  "window_references idx_to_meta key row thr top_k =
     take (nat top_k)
       (List.map_filter (candidate_ref idx_to_meta key row thr)
          (take (nat (2 * top_k)) (argsort_desc row)))"

text \<open>Readers of an outcome: the results, the row indices they refer to, the files left.\<close>

definition results_after :: "error + (retval \<times> fs) \<Rightarrow> result list" where
  "results_after res = (case res of Inl e \<Rightarrow> [] | Inr (out, st) \<Rightarrow> results_of out)"

definition returned_idxs :: "error + (retval \<times> fs) \<Rightarrow> nat list list" where
  "returned_idxs res = map (\<lambda>r. map ref_idx (references r)) (results_after res)"

definition files_after :: "fs \<Rightarrow> error + ('a \<times> fs) \<Rightarrow> fs" where
  "files_after st res = (case res of Inl e \<Rightarrow> st | Inr (out, st') \<Rightarrow> st')"

section \<open>A small store for the examples\<close>

text \<open>
  Three unit vectors in the plane. The issue \<^verbatim>\<open>A-1\<close> was indexed twice (its summary
  changed), so that it owns the rows 0 and 1. The sample encoder maps every text to the
  first unit vector, and \<open>dot\<close> is the exact dot product.
\<close>

definition dot :: "real list \<Rightarrow> real list \<Rightarrow> real" where
  "dot q v = sum_list (map2 (*) q v)"

definition ex_model :: encoder where
  "ex_model = \<lparr>enc_dim = 2, enc_vec = (\<lambda>t. [1, 0])\<rparr>"

definition ex_meta :: meta where
  "ex_meta = [(0, [(''key'', PStr ''A-1''), (''Summary'', PStr ''login fails'')]),
              (1, [(''key'', PStr ''A-1''), (''Summary'', PStr ''login fails again'')]),
              (2, [(''key'', PStr ''B-2''), (''Summary'', PStr ''login broken'')])]"

definition ex_embs :: matrix where
  "ex_embs = Matrix 2 [[1, 0], [4/5, 3/5], [3/5, 4/5]]"

definition ex_store :: fs where
  "ex_store = \<lparr>meta_file = Some ex_meta, emb_file = Some (Npy2D ex_embs), ann_file = None,
                assignee_csv = Some (CsvRows [Some ''alice'', Some ''bob'']),
                assignee_json = None\<rparr>"

definition ex_query :: pydict where
  "ex_query = [(''Issue key'', PStr ''A-1''), (''Summary'', PStr ''login fails'')]"

definition ex_query_b :: pydict where
  "ex_query_b = [(''Issue id'', PStr ''1002''), (''Summary'', PStr ''login broken'')]"

text \<open>A store whose metadata has one row and whose matrix has two.\<close>

definition ex_bad_store :: fs where
  "ex_bad_store =
     \<lparr>meta_file = Some [(0, [(''key'', PStr ''A-1''), (''Summary'', PStr ''login fails'')])],
      emb_file = Some (Npy2D (Matrix 2 [[1, 0], [0, 1]])), ann_file = None,
      assignee_csv = None, assignee_json = None\<rparr>"

section \<open>The store invariant and the notions for the indexer\<close>

text \<open>
  The invariant of the data model: the two files exist together, the metadata's row
  indices are \<open>0, 1, \<dots>\<close> in order, and the matrix has one row for every entry. The
  code does not check it on load; the indexer keeps it (\<open>wf_store_preserved\<close> below).
\<close>

definition wf_store :: "fs \<Rightarrow> bool" where
  "wf_store st =
     (case (meta_file st, emb_file st) of
        (None, None) \<Rightarrow> True
      | (Some meta, Some (Npy2D embs)) \<Rightarrow>
          map fst meta = map int [0..<length meta] \<and> nrows embs = length meta
      | _ \<Rightarrow> False)"

text \<open>
  The stores the system itself produces: a first use without the two files, then
  indexing runs and queries that return, with any encoder, batch and query parameters.
\<close>

inductive reachable :: "index_cfg \<Rightarrow> fs \<Rightarrow> bool" for cfg :: index_cfg where
  first_use: "meta_file st = None \<Longrightarrow> emb_file st = None \<Longrightarrow> reachable cfg st"
| indexed: "reachable cfg st \<Longrightarrow> add_index_new_Data model issues cfg st = Inr (res, st') \<Longrightarrow>
            reachable cfg st'"
| queried: "reachable cfg st \<Longrightarrow>
            find_reference_issues model sim issues st kf k thr dbg = Inr (out, st') \<Longrightarrow>
            reachable cfg st'"

text \<open>
  The entry that \<open>existing_key_to_idx\<close> points to for a key: the last item of the
  metadata whose \<^verbatim>\<open>"key"\<close> is that key.
\<close>

fun last_entry :: "meta \<Rightarrow> pyval \<Rightarrow> (int \<times> pydict) option" where
  "last_entry [] k = None"
| "last_entry ((i, e) # rest) k =
     (case last_entry rest k of
        Some p \<Rightarrow> Some p
      | None \<Rightarrow> if map_of e ''key'' = Some k then Some (i, e) else None)"

text \<open>
  Records of a batch that share a key have equal summaries and equal assignees, in the sense
  of \<^verbatim>\<open>==\<close>. A record shares its key with itself, so neither value is \<^verbatim>\<open>nan\<close>.
\<close>

definition same_key_same_content :: "string \<Rightarrow> pydict list \<Rightarrow> bool" where
  "same_key_same_content kf issues =
     (\<forall>t \<in> set issues. \<forall>u \<in> set issues.
        safe_key t kf = safe_key u kf \<longrightarrow>
          py_eq (dget_default t ''Summary'' (PStr '''')) (dget_default u ''Summary'' (PStr ''''))
          \<and> py_eq (dget t ''Assignee'') (dget u ''Assignee''))"

text \<open>
  The record needs a row: it has a key, and it is new (the metadata has no entry of its
  key) or changed (the last entry of its key is empty or differs, by \<^verbatim>\<open>!=\<close>, in the
  summary or the assignee).
\<close>

definition needs_row :: "meta \<Rightarrow> string \<Rightarrow> pydict \<Rightarrow> bool" where
  "needs_row meta kf t =
     (safe_key t kf \<noteq> []
      \<and> (case last_entry meta (PStr (safe_key t kf)) of
            None \<Rightarrow> True
          | Some (j, e) \<Rightarrow>
              e = [] \<or> py_ne (dget e ''Summary'') (dget_default t ''Summary'' (PStr ''''))
              \<or> py_ne (dget e ''Assignee'') (dget t ''Assignee'')))"

text \<open>The stored entry \<open>e\<close> holds what the indexer compares of the record \<open>u\<close>.\<close>

definition entry_of :: "string \<Rightarrow> pydict \<Rightarrow> pydict \<Rightarrow> bool" where
  "entry_of kf u e =
     (e \<noteq> [] \<and> map_of e ''key'' = Some (PStr (safe_key u kf))
      \<and> dget e ''Summary'' = dget_default u ''Summary'' (PStr '''')
      \<and> dget e ''Assignee'' = dget u ''Assignee'')"

text \<open>The status and the count of added rows of an indexing run.\<close>

definition index_status :: "error + (index_result \<times> fs) \<Rightarrow> (status \<times> nat) option" where
  "index_status res = (case res of Inl e \<Rightarrow> None | Inr (r, st) \<Rightarrow> Some (status r, added r))"

text \<open>
  Batches for the examples: a changed and a new issue; one key twice with two
  summaries; a record without a \<^verbatim>\<open>Summary\<close> field.
\<close>

definition ex_cfg :: index_cfg where
  "ex_cfg = \<lparr>embed_dim = 2, key_field = ''Issue key''\<rparr>"

definition ex_empty :: fs where
  "ex_empty = \<lparr>meta_file = None, emb_file = None, ann_file = None, assignee_csv = None,
                assignee_json = None\<rparr>"

definition ex_batch :: "pydict list" where
  "ex_batch = [[(''Issue key'', PStr ''A-1''), (''Summary'', PStr ''login fails on SSO'')],
               [(''Issue key'', PStr ''C-3''), (''Summary'', PStr ''export hangs'')]]"

definition ex_dup_batch :: "pydict list" where
  "ex_dup_batch = [[(''Issue key'', PStr ''A-1''), (''Summary'', PStr ''login fails'')],
                   [(''Issue key'', PStr ''A-1''), (''Summary'', PStr ''login fails again'')]]"

definition ex_no_summary_batch :: "pydict list" where
  "ex_no_summary_batch = [[(''Issue key'', PStr ''D-4'')]]"

text \<open>A record read from a CSV file whose \<^verbatim>\<open>Assignee\<close> cell is empty.\<close>

definition ex_nan_batch :: "pydict list" where
  "ex_nan_batch =
     [[(''Issue key'', PStr ''E-5''), (''Summary'', PStr ''report is slow''), (''Assignee'', PNaN)]]"

text \<open>The sample store without its matrix file, and one whose row indices are 1 and 2.\<close>

definition ex_half_store :: fs where
  "ex_half_store = ex_store\<lparr>emb_file := None\<rparr>"

definition ex_sparse_store :: fs where
  "ex_sparse_store =
     \<lparr>meta_file = Some [(1, [(''key'', PStr ''A-1''), (''Summary'', PStr ''login fails'')]),
                        (2, [(''key'', PStr ''B-2''), (''Summary'', PStr ''login broken'')])],
      emb_file = Some (Npy2D (Matrix 2 [[1, 0], [3/5, 4/5]])), ann_file = None,
      assignee_csv = None, assignee_json = None\<rparr>"


section \<open>Properties of the vector store\<close>

lemmas ex_defs = ex_model_def ex_meta_def ex_embs_def ex_store_def ex_query_def

lemmas eval_defs =
  find_reference_issues_def score_issue_def sims_row_def dot_def argsort_desc_def py_upto_def
  candidate_key_def safe_key_def py_or_def dget_def dget_default_def sample_of_def
  assign_lru_def py_strip_def is_space_def placeholder_def py_lower_def lower_char_def
  load_assignees_from_json_def Let_def upt_rec mismatch_result_def missing_result_def

lemmas idx_defs =
  add_index_new_Data_def load_meta_embs_def existing_key_to_idx_def new_or_changed_def
  encode_def vstack_def msize_def nrows_def build_and_save_annoy_def save_meta_embs_def
  safe_key_def py_or_def dget_def dget_default_def py_ne_def py_eq_def Let_def upt_rec
  ex_cfg_def ex_empty_def ex_batch_def ex_dup_batch_def ex_no_summary_batch_def ex_nan_batch_def
  ex_half_store_def ex_sparse_store_def
  ex_model_def ex_meta_def ex_embs_def ex_store_def

lemma load_meta_embs_missing_meta:
  "meta_file st = None \<Longrightarrow> load_meta_embs st edim = Inr ([], Matrix edim [])"
  by (simp add: load_meta_embs_def)

lemma load_meta_embs_missing_emb:
  "emb_file st = None \<Longrightarrow> load_meta_embs st edim = Inr ([], Matrix edim [])"
  by (simp add: load_meta_embs_def split: option.splits)

text \<open>
  C10. When exactly one of the metadata file and the embedding-matrix file exists,
  \<open>load_meta_embs\<close> returns the empty snapshot: no metadata, a matrix of zero rows
  and \<open>edim\<close> columns. It raises nothing and takes nothing from the file that exists.
\<close>

theorem load_one_artifact_gives_empty:
  assumes "(meta_file st = None) \<noteq> (emb_file st = None)"
  shows "load_meta_embs st edim = Inr ([], Matrix edim [])
         \<and> nrows (Matrix edim []) = 0 \<and> ncols (Matrix edim []) = edim"
  using assms load_meta_embs_missing_meta [of st edim] load_meta_embs_missing_emb [of st edim]
  by (auto simp: nrows_def)

theorem load_one_artifact_gives_empty_witness:
  "load_meta_embs
     \<lparr>meta_file = Some [(0, [(''key'', PStr ''A-1'')])], emb_file = None, ann_file = None,
      assignee_csv = None, assignee_json = None\<rparr> 384 = Inr ([], Matrix 384 [])
   \<and> load_meta_embs
     \<lparr>meta_file = None, emb_file = Some (Npy2D (Matrix 384 [])), ann_file = None,
      assignee_csv = None, assignee_json = None\<rparr> 384 = Inr ([], Matrix 384 [])"
  using load_one_artifact_gives_empty
          [of "\<lparr>meta_file = Some [(0, [(''key'', PStr ''A-1'')])], emb_file = None,
                ann_file = None, assignee_csv = None, assignee_json = None\<rparr>" 384]
        load_one_artifact_gives_empty
          [of "\<lparr>meta_file = None, emb_file = Some (Npy2D (Matrix 384 [])), ann_file = None,
                assignee_csv = None, assignee_json = None\<rparr>" 384]
  by simp

text \<open>
  The only error of the loader is \<^verbatim>\<open>ValueError\<close>.
\<close>

lemma load_raises_value_error:
  "load_meta_embs st D = Inl e \<Longrightarrow> e = ValueError"
  by (auto simp: load_meta_embs_def split: option.splits npy.splits if_splits)

text \<open>
  C3, as amended. With both files present, loading fails exactly when the saved array is
  not two-dimensional or its column count differs from \<open>D\<close>; otherwise it returns the
  metadata and the matrix as saved, whatever their row counts.
\<close>

theorem load_checks_columns_only:
  assumes "meta_file st = Some meta" and "emb_file st = Some arr"
  shows "((\<exists>e. load_meta_embs st D = Inl e) \<longleftrightarrow>
            (arr = NpyOther \<or> (\<exists>embs. arr = Npy2D embs \<and> ncols embs \<noteq> D)))
         \<and> (\<forall>embs. arr = Npy2D embs \<and> ncols embs = D \<longrightarrow> load_meta_embs st D = Inr (meta, embs))"
  using assms by (cases arr) (auto simp: load_meta_embs_def)

theorem load_checks_columns_only_witness:
  "(\<exists>e. load_meta_embs ex_store 3 = Inl e)
   \<and> load_meta_embs ex_store 2 = Inr (ex_meta, ex_embs)
   \<and> (\<exists>e. load_meta_embs (ex_store\<lparr>emb_file := Some NpyOther\<rparr>) 2 = Inl e)"
proof -
  have a: "meta_file ex_store = Some ex_meta" and b: "emb_file ex_store = Some (Npy2D ex_embs)"
    by (simp_all add: ex_store_def)
  have a': "meta_file (ex_store\<lparr>emb_file := Some NpyOther\<rparr>) = Some ex_meta"
    and b': "emb_file (ex_store\<lparr>emb_file := Some NpyOther\<rparr>) = Some NpyOther"
    by (simp_all add: ex_store_def)
  from load_checks_columns_only [OF a b, of 3] load_checks_columns_only [OF a b, of 2]
    load_checks_columns_only [OF a' b', of 2]
  show ?thesis by (simp add: ex_embs_def)
qed

text \<open>
  C3 as stated fails: metadata of one row and a matrix of two rows load without error.
\<close>

theorem load_row_count_counterexample:
  "load_meta_embs ex_bad_store 2 =
     Inr ([(0, [(''key'', PStr ''A-1''), (''Summary'', PStr ''login fails'')])],
          Matrix 2 [[1, 0], [0, 1]])
   \<and> length [(0 :: int, [(''key'', PStr ''A-1''), (''Summary'', PStr ''login fails'')])] = 1
   \<and> nrows (Matrix 2 [[1, 0], [0, 1]]) = 2"
  by (simp add: load_meta_embs_def ex_bad_store_def nrows_def)

section \<open>Properties of the similarity retrieval engine\<close>

lemma scan_Cons_Some:
  assumes "candidate_ref f key row thr idx = Some r"
  shows "scan f key row thr k dbg (idx # rest) s =
           (if k \<le> int (length (refs s)) + 1 then s\<lparr>refs := refs s @ [r]\<rparr>
            else scan f key row thr k dbg rest (s\<lparr>refs := refs s @ [r]\<rparr>))"
  using assms
  by (auto simp: candidate_ref_def Let_def split: option.splits if_splits)

lemma scan_Cons_None:
  assumes "candidate_ref f key row thr idx = None"
  shows "\<exists>s'. refs s' = refs s \<and>
           scan f key row thr k dbg (idx # rest) s = scan f key row thr k dbg rest s'"
proof (cases "f (int idx)")
  case None
  then show ?thesis by auto
next
  case (Some me)
  show ?thesis
  proof (cases "me = []")
    case True
    with Some show ?thesis by auto
  next
    case False
    show ?thesis
    proof (cases "candidate_key me \<noteq> [] \<and> key \<noteq> [] \<and> candidate_key me = key")
      case True
      with Some False have
        "scan f key row thr k dbg (idx # rest) s =
           scan f key row thr k dbg rest
             (if dbg then s\<lparr>skips := skips s @ [(idx, candidate_key me)]\<rparr> else s)"
        by (simp add: Let_def)
      then show ?thesis
        by (intro exI [of _ "if dbg then s\<lparr>skips := skips s @ [(idx, candidate_key me)]\<rparr> else s"])
           simp
    next
      case nself: False
      with Some False assms have low: "row ! idx < thr"
        by (auto simp: candidate_ref_def split: if_splits)
      with Some False nself have
        "scan f key row thr k dbg (idx # rest) s =
           scan f key row thr k dbg rest (s\<lparr>filtered := filtered s @ [(idx, row ! idx)]\<rparr>)"
        by (auto simp: Let_def)
      then show ?thesis
        by (intro exI [of _ "s\<lparr>filtered := filtered s @ [(idx, row ! idx)]\<rparr>"]) simp
    qed
  qed
qed

lemma scan_refs:
  "refs (scan f key row thr k dbg idxs s) =
     refs s @ take (nat (max 1 (k - int (length (refs s)))))
                (List.map_filter (candidate_ref f key row thr) idxs)"
proof (induction idxs arbitrary: s)
  case Nil
  then show ?case by simp
next
  case (Cons idx rest)
  show ?case
  proof (cases "candidate_ref f key row thr idx")
    case None
    from scan_Cons_None [OF None, where k = k and dbg = dbg and rest = rest and s = s] obtain s' where
      s': "refs s' = refs s"
          "scan f key row thr k dbg (idx # rest) s = scan f key row thr k dbg rest s'"
      by blast
    show ?thesis
      using Cons.IH [of s'] s' None by (simp del: scan.simps)
  next
    case (Some r)
    show ?thesis
    proof (cases "k \<le> int (length (refs s)) + 1")
      case True
      then have "nat (max 1 (k - int (length (refs s)))) = 1" by simp
      with True Some show ?thesis
        by (simp add: scan_Cons_Some [OF Some] del: scan.simps)
    next
      case False
      then have "nat (max 1 (k - int (length (refs s)))) =
                 Suc (nat (max 1 (k - int (length (refs s @ [r])))))"
        by simp
      with False Some show ?thesis
        using Cons.IH [of "s\<lparr>refs := refs s @ [r]\<rparr>"]
        by (simp add: scan_Cons_Some [OF Some] del: scan.simps)
    qed
  qed
qed

lemma score_loop_results:
  "fst (score_loop model sim stored f kf k thr dbg issues pa st) =
     map (\<lambda>issue. score_issue f kf k thr dbg issue
            (sims_row sim (enc_vec model (dget_default issue ''Summary'' (PStr ''''))) stored))
         issues"
  by (induction issues arbitrary: pa st) (simp_all add: Let_def split_def)

lemma score_issue_references:
  "references (score_issue f kf k thr dbg issue row) =
     take (nat (max 1 k))
       (List.map_filter (candidate_ref f (safe_key issue kf) row thr)
          (py_upto (k * 2) (argsort_desc row)))"
  by (simp add: score_issue_def Let_def scan_refs py_upto_def argsort_desc_def)

lemma score_issue_key:
  "input_key (score_issue f kf k thr dbg issue row) = safe_key issue kf"
  "input_summary (score_issue f kf k thr dbg issue row) = dget_default issue ''Summary'' (PStr '''')"
  by (simp_all add: score_issue_def Let_def)

lemma find_cases:
  assumes "find_reference_issues model sim issues st kf k thr dbg = Inr (out, st')"
  obtains
    (missing) "emb_file st = None \<or> meta_file st = None"
      "out = RList (map (missing_result kf (emb_file st \<noteq> None) (meta_file st \<noteq> None)) issues)"
      "st' = st"
  | (empty) stored meta where "emb_file st = Some (Npy2D stored)" "meta_file st = Some meta"
      "issues = []" "out = RList []" "st' = st"
  | (mismatch) stored meta where "emb_file st = Some (Npy2D stored)" "meta_file st = Some meta"
      "enc_dim model \<noteq> ncols stored"
      "out = RList (map (mismatch_result kf (enc_dim model) (ncols stored)) issues)" "st' = st"
  | (scored) stored meta rs pa where "emb_file st = Some (Npy2D stored)" "meta_file st = Some meta"
      "issues \<noteq> []" "enc_dim model = ncols stored" "out = RPair rs pa"
      "score_loop model sim stored (map_of (rev meta)) kf k thr dbg issues None st
         = (rs, Some pa, st')"
proof (cases "emb_file st")
  case None
  with assms have "out = RList (map (missing_result kf False (meta_file st \<noteq> None)) issues)"
    and "st' = st"
    by (auto simp: find_reference_issues_def)
  with None show ?thesis by (intro missing) simp_all
next
  case (Some arr)
  note emb = this
  show ?thesis
  proof (cases "meta_file st")
    case None
    with emb assms have "out = RList (map (missing_result kf True False) issues)" and "st' = st"
      by (auto simp: find_reference_issues_def)
    with None emb show ?thesis by (intro missing) simp_all
  next
    case (Some meta)
    note meta = this
    show ?thesis
    proof (cases arr)
      case NpyOther
      with emb meta assms show ?thesis by (simp add: find_reference_issues_def)
    next
      case (Npy2D stored)
      note arr = this
      show ?thesis
      proof (cases "issues = []")
        case True
        with emb meta arr assms have "out = RList []" and "st' = st"
          by (auto simp: find_reference_issues_def)
        with emb meta arr True show ?thesis by (intro empty [of stored meta]) simp_all
      next
        case False
        note ne = this
        show ?thesis
        proof (cases "enc_dim model = ncols stored")
          case False
          with emb meta arr ne assms
          have "out = RList (map (mismatch_result kf (enc_dim model) (ncols stored)) issues)"
            and "st' = st"
            by (auto simp: find_reference_issues_def)
          with emb meta arr False show ?thesis by (intro mismatch [of stored meta]) simp_all
        next
          case True
          obtain rs pa st2 where
            loop: "score_loop model sim stored (map_of (rev meta)) kf k thr dbg issues None st
                     = (rs, pa, st2)"
            by (cases "score_loop model sim stored (map_of (rev meta)) kf k thr dbg issues None st")
          with emb meta arr ne True assms obtain a where "pa = Some a" "out = RPair rs a"
            and "st2 = st'"
            by (cases pa) (auto simp: find_reference_issues_def)
          with emb meta arr ne True loop show ?thesis
            by (intro scored [of stored meta rs a]) simp_all
        qed
      qed
    qed
  qed
qed

lemma scored_results:
  assumes "score_loop model sim stored f kf k thr dbg issues pa0 st = (rs, pa, st')"
  shows "rs = map (\<lambda>issue. score_issue f kf k thr dbg issue
            (sims_row sim (enc_vec model (dget_default issue ''Summary'' (PStr ''''))) stored))
         issues"
  using score_loop_results [of model sim stored f kf k thr dbg issues pa0 st] assms by simp

lemma score_loop_bound:
  assumes "pa \<noteq> None \<or> (issues \<noteq> [] \<and> rows stored \<noteq> [])"
  shows "fst (snd (score_loop model sim stored f kf k thr dbg issues pa st)) \<noteq> None"
  using assms
proof (induction issues arbitrary: pa st)
  case Nil
  then show ?case by simp
next
  case (Cons issue rest)
  show ?case
  proof (cases "rows stored = []")
    case True
    with Cons.prems have "pa \<noteq> None" by simp
    with Cons.IH [of pa st] True show ?thesis
      by (simp add: Let_def split_def sims_row_def)
  next
    case False
    with Cons.IH [of "Some (fst (assign_lru st))" "snd (assign_lru st)"] show ?thesis
      by (simp add: Let_def split_def sims_row_def)
  qed
qed

lemma score_loop_unbound:
  "rows stored = [] \<Longrightarrow>
   snd (score_loop model sim stored f kf k thr dbg issues pa st) = (pa, st)"
  by (induction issues arbitrary: pa st) (simp_all add: Let_def split_def sims_row_def)

text \<open>
  With both files present, a two-dimensional matrix of at least one row and any batch,
  the call returns; on a matrix of zero rows of the encoder's dimension a non-empty
  batch raises, since \<^verbatim>\<open>potential_assignee\<close> is never bound.
\<close>

lemma find_returns:
  assumes "emb_file st = Some (Npy2D stored)" and "meta_file st = Some meta"
    and "rows stored \<noteq> []"
  shows "\<exists>out st'. find_reference_issues model sim issues st kf k thr dbg = Inr (out, st')"
proof (cases "issues = []")
  case True
  with assms(1,2) show ?thesis by (simp add: find_reference_issues_def)
next
  case False
  let ?L = "score_loop model sim stored (map_of (rev meta)) kf k thr dbg issues None st"
  from False assms(3) have "fst (snd ?L) \<noteq> None"
    by (intro score_loop_bound) simp
  then obtain a where "fst (snd ?L) = Some a" by auto
  with assms(1,2) False show ?thesis
    by (simp add: find_reference_issues_def split_def Let_def)
qed

lemma find_empty_store_raises:
  assumes "emb_file st = Some (Npy2D stored)" and "meta_file st = Some meta"
    and "rows stored = []" and "issues \<noteq> []" and "enc_dim model = ncols stored"
  shows "find_reference_issues model sim issues st kf k thr dbg = Inl UnboundLocalError"
  using assms score_loop_unbound [OF assms(3), of model sim "map_of (rev meta)" kf k thr dbg issues None st]
  by (simp add: find_reference_issues_def split_def Let_def)

lemma ex_find_returns:
  "\<exists>out st'. find_reference_issues ex_model sim issues ex_store kf k thr dbg = Inr (out, st')"
  by (rule find_returns [of ex_store ex_embs ex_meta]) (simp_all add: ex_store_def ex_embs_def)

text \<open>
  C9. On every path that returns (files missing, empty batch, dimension mismatch, scoring)
  the results are one per query record, in input order, and each result carries the
  key and the summary of its record. After scoring the results are the first component
  of the returned pair.
\<close>

theorem one_result_per_input:
  assumes "find_reference_issues model sim issues st kf k thr dbg = Inr (out, st')"
  shows "length (results_of out) = length issues
         \<and> map input_key (results_of out) = map (\<lambda>i. safe_key i kf) issues
         \<and> map input_summary (results_of out) =
             map (\<lambda>i. dget_default i ''Summary'' (PStr '''')) issues"
  using assms
proof (cases rule: find_cases)
  case missing
  then show ?thesis by (simp add: missing_result_def comp_def)
next
  case (empty stored meta)
  then show ?thesis by simp
next
  case (mismatch stored meta)
  then show ?thesis by (simp add: mismatch_result_def comp_def)
next
  case (scored stored meta rs pa)
  from scored_results [OF scored(6)] scored(5) show ?thesis
    by (simp add: comp_def score_issue_key)
qed

theorem one_result_per_input_witness:
  "length (results_after
        (find_reference_issues ex_model dot [ex_query, ex_query_b] ex_store ''Issue key'' 2 (1/2) False))
     = 2
   \<and> map input_key (results_after
        (find_reference_issues ex_model dot [ex_query, ex_query_b] ex_store ''Issue key'' 2 (1/2) False))
     = [''A-1'', ''1002'']
   \<and> map input_summary (results_after
        (find_reference_issues ex_model dot [ex_query, ex_query_b] ex_store ''Issue key'' 2 (1/2) False))
     = [PStr ''login fails'', PStr ''login broken'']"
proof -
  obtain out st' where
    f: "find_reference_issues ex_model dot [ex_query, ex_query_b] ex_store ''Issue key'' 2 (1/2) False
          = Inr (out, st')"
    using ex_find_returns by blast
  have R: "results_after
        (find_reference_issues ex_model dot [ex_query, ex_query_b] ex_store ''Issue key'' 2 (1/2) False)
          = results_of out"
    by (simp add: results_after_def f)
  from one_result_per_input [OF f] show ?thesis
    unfolding R
    by (simp add: ex_query_def ex_query_b_def safe_key_def py_or_def dget_def dget_default_def)
qed

text \<open>
  C5. When both files exist, the saved matrix is two-dimensional and the encoder's
  dimension differs from the matrix's column count, the call raises nothing: it returns
  one result for every query record, with no reference and the dimension-mismatch
  diagnostic, and leaves the files as they are.
\<close>

theorem dimension_mismatch_degrades:
  assumes "emb_file st = Some (Npy2D stored)" and "meta_file st = Some meta"
    and "enc_dim model \<noteq> ncols stored"
  shows "find_reference_issues model sim issues st kf k thr dbg =
           Inr (RList (map (mismatch_result kf (enc_dim model) (ncols stored)) issues), st)
         \<and> (\<forall>issue \<in> set issues.
               references (mismatch_result kf (enc_dim model) (ncols stored) issue) = []
               \<and> diagnostics (mismatch_result kf (enc_dim model) (ncols stored) issue) =
                   DimMismatch (enc_dim model) (ncols stored)
               \<and> input_key (mismatch_result kf (enc_dim model) (ncols stored) issue) =
                   safe_key issue kf)"
  using assms by (simp add: find_reference_issues_def mismatch_result_def)

theorem dimension_mismatch_degrades_witness:
  "find_reference_issues (ex_model\<lparr>enc_dim := 3\<rparr>) dot [ex_query] ex_store ''Issue key'' 2 (1/2) False
     = Inr (RList [\<lparr>input_key = ''A-1'', input_summary = PStr ''login fails'', references = [],
                     diagnostics = DimMismatch 3 2\<rparr>], ex_store)"
proof -
  have a: "emb_file ex_store = Some (Npy2D ex_embs)" and b: "meta_file ex_store = Some ex_meta"
    and c: "enc_dim (ex_model\<lparr>enc_dim := 3\<rparr>) \<noteq> ncols ex_embs"
    by (simp_all add: ex_defs)
  from dimension_mismatch_degrades [OF a b c, of dot "[ex_query]" "''Issue key''" 2 "1/2" False]
  show ?thesis
    by (simp add: mismatch_result_def ex_defs safe_key_def py_or_def dget_def dget_default_def)
qed

lemma candidate_ref_key:
  assumes "candidate_ref f key row thr idx = Some r" and "key \<noteq> []"
  shows "ref_key r \<noteq> key"
  using assms by (auto simp: candidate_ref_def split: option.splits if_splits)

lemma map_filter_set:
  "r \<in> set (List.map_filter g xs) \<Longrightarrow> \<exists>x \<in> set xs. g x = Some r"
  by (auto simp: List.map_filter_def)

lemma score_issue_no_self:
  assumes "ref \<in> set (references (score_issue f kf k thr dbg issue row))"
    and "safe_key issue kf \<noteq> []"
  shows "ref_key ref \<noteq> safe_key issue kf"
proof -
  from assms(1) have "ref \<in> set (List.map_filter (candidate_ref f (safe_key issue kf) row thr)
          (py_upto (k * 2) (argsort_desc row)))"
    unfolding score_issue_references by (rule in_set_takeD)
  then obtain idx where "candidate_ref f (safe_key issue kf) row thr idx = Some ref"
    by (auto dest: map_filter_set)
  from candidate_ref_key [OF this assms(2)] show ?thesis .
qed

text \<open>
  C6. No reference of a result carries the key of the result's own query record, when that
  key is not empty; this holds for every threshold and every \<open>top_k\<close>, whether or not the
  key is in the store.
\<close>

theorem self_match_suppressed:
  assumes "find_reference_issues model sim issues st kf k thr dbg = Inr (out, st')"
    and "r \<in> set (results_of out)" and "ref \<in> set (references r)" and "input_key r \<noteq> []"
  shows "ref_key ref \<noteq> input_key r"
  using assms(1)
proof (cases rule: find_cases)
  case missing
  with assms(2,3) show ?thesis by (auto simp: missing_result_def)
next
  case (empty stored meta)
  with assms(2) show ?thesis by simp
next
  case (mismatch stored meta)
  with assms(2,3) show ?thesis by (auto simp: mismatch_result_def)
next
  case (scored stored meta rs pa)
  from scored_results [OF scored(6)] scored(5) assms(2)
  obtain issue where r: "r = score_issue (map_of (rev meta)) kf k thr dbg issue
            (sims_row sim (enc_vec model (dget_default issue ''Summary'' (PStr ''''))) stored)"
    by auto
  with assms(4) have "safe_key issue kf \<noteq> []" by (simp add: score_issue_key)
  with assms(3) show ?thesis
    unfolding r score_issue_key by (rule score_issue_no_self)
qed

theorem self_match_suppressed_witness:
  "map (\<lambda>r. (input_key r, map ref_key (references r)))
     (results_after
        (find_reference_issues ex_model dot [ex_query] ex_store ''Issue key'' 2 (1/2) False))
     = [(''A-1'', [''B-2''])]
   \<and> ''B-2'' \<noteq> ''A-1''"
proof -
  obtain out st' where
    f: "find_reference_issues ex_model dot [ex_query] ex_store ''Issue key'' 2 (1/2) False
          = Inr (out, st')"
    using ex_find_returns by blast
  from f have ev: "map (\<lambda>r. (input_key r, map ref_key (references r))) (results_of out)
                     = [(''A-1'', [''B-2''])]"
    by (auto simp: ex_defs eval_defs)
  then obtain r where out: "results_of out = [r]" and k: "input_key r = ''A-1''"
    and rs: "map ref_key (references r) = [''B-2'']"
    by auto
  from rs obtain ref where refs: "references r = [ref]" and rk: "ref_key ref = ''B-2''"
    by auto
  from self_match_suppressed [OF f, of r ref] out refs k rk have "''B-2'' \<noteq> ''A-1''"
    by simp
  have R: "results_after
        (find_reference_issues ex_model dot [ex_query] ex_store ''Issue key'' 2 (1/2) False)
          = results_of out"
    by (simp add: results_after_def f)
  from ev \<open>''B-2'' \<noteq> ''A-1''\<close> show ?thesis unfolding R by simp
qed

lemma candidate_ref_mono:
  assumes "t1 \<le> t2" and "candidate_ref f key row t2 idx \<noteq> None"
  shows "candidate_ref f key row t1 idx \<noteq> None"
  using assms by (auto simp: candidate_ref_def split: option.splits if_splits)

lemma length_map_filter_mono:
  assumes "\<And>x. g x \<noteq> None \<Longrightarrow> h x \<noteq> None"
  shows "length (List.map_filter g xs) \<le> length (List.map_filter h xs)"
proof (induction xs)
  case Nil
  show ?case by simp
next
  case (Cons x xs)
  show ?case
  proof (cases "g x")
    case None
    with Cons show ?thesis by (cases "h x") simp_all
  next
    case (Some y)
    with assms [of x] obtain z where "h x = Some z" by auto
    with Some Cons show ?thesis by simp
  qed
qed

lemma score_issue_mono:
  assumes "t1 \<le> t2"
  shows "length (references (score_issue f kf k t2 dbg issue row))
         \<le> length (references (score_issue f kf k t1 dbg issue row))"
proof -
  have "length (List.map_filter (candidate_ref f (safe_key issue kf) row t2)
                  (py_upto (k * 2) (argsort_desc row)))
        \<le> length (List.map_filter (candidate_ref f (safe_key issue kf) row t1)
                  (py_upto (k * 2) (argsort_desc row)))"
    by (rule length_map_filter_mono) (rule candidate_ref_mono [OF assms])
  then show ?thesis by (simp add: score_issue_references)
qed

text \<open>
  C8. For the same query batch and the same files, a higher threshold never gives a query
  record more references.
\<close>

theorem threshold_monotone:
  assumes "find_reference_issues model sim issues st kf k t1 dbg = Inr (out1, st1)"
    and "find_reference_issues model sim issues st kf k t2 dbg = Inr (out2, st2)"
    and "t1 \<le> t2"
  shows "list_all2 (\<lambda>r2 r1. length (references r2) \<le> length (references r1))
           (results_of out2) (results_of out1)"
  using assms(1)
proof (cases rule: find_cases)
  case missing
  with assms(2) show ?thesis
    by (auto simp: find_reference_issues_def list_all2_conv_all_nth missing_result_def
             split: option.splits)
next
  case (empty stored meta)
  with assms(2) show ?thesis by (auto simp: find_reference_issues_def)
next
  case (mismatch stored meta)
  with assms(2) show ?thesis
    by (auto simp: find_reference_issues_def list_all2_conv_all_nth mismatch_result_def
             split: if_splits)
next
  case (scored stored meta rs pa)
  with assms(2) obtain rs2 pa2 a2 where out2: "out2 = RPair rs2 a2"
    and loop2: "score_loop model sim stored (map_of (rev meta)) kf k t2 dbg issues None st = (rs2, pa2, st2)"
    by (auto simp: find_reference_issues_def split: prod.splits option.splits)
  show ?thesis
    unfolding out2 scored(5) scored_results [OF scored(6)] scored_results [OF loop2]
    by (simp add: list_all2_conv_all_nth score_issue_mono [OF assms(3)])
qed

theorem threshold_monotone_witness:
  "list_all2 (\<lambda>r2 r1. length (references r2) \<le> length (references r1))
     (results_after
        (find_reference_issues ex_model dot [ex_query] ex_store ''Issue key'' 2 (7/10) False))
     (results_after
        (find_reference_issues ex_model dot [ex_query] ex_store ''Issue key'' 2 (1/2) False))
   \<and> map (\<lambda>r. length (references r))
       (results_after
          (find_reference_issues ex_model dot [ex_query] ex_store ''Issue key'' 2 (1/2) False))
     = [1]
   \<and> map (\<lambda>r. length (references r))
       (results_after
          (find_reference_issues ex_model dot [ex_query] ex_store ''Issue key'' 2 (7/10) False))
     = [0]"
proof -
  obtain out1 st1 where
    f1: "find_reference_issues ex_model dot [ex_query] ex_store ''Issue key'' 2 (1/2) False
          = Inr (out1, st1)"
    using ex_find_returns by blast
  obtain out2 st2 where
    f2: "find_reference_issues ex_model dot [ex_query] ex_store ''Issue key'' 2 (7/10) False
          = Inr (out2, st2)"
    using ex_find_returns by blast
  have le: "(1/2 :: real) \<le> 7/10" by simp
  from f1 have l1: "map (\<lambda>r. length (references r)) (results_of out1) = [1]"
    by (auto simp: ex_defs eval_defs)
  from f2 have l2: "map (\<lambda>r. length (references r)) (results_of out2) = [0]"
    by (auto simp: ex_defs eval_defs)
  have R1: "results_after
        (find_reference_issues ex_model dot [ex_query] ex_store ''Issue key'' 2 (1/2) False)
          = results_of out1"
    by (simp add: results_after_def f1)
  have R2: "results_after
        (find_reference_issues ex_model dot [ex_query] ex_store ''Issue key'' 2 (7/10) False)
          = results_of out2"
    by (simp add: results_after_def f2)
  from threshold_monotone [OF f1 f2 le] l1 l2 show ?thesis
    unfolding R1 R2 by simp
qed

lemma assign_lru_frame:
  "snd (assign_lru st) = st\<lparr>assignee_csv := assignee_csv (snd (assign_lru st))\<rparr>"
  by (simp add: assign_lru_def Let_def split: option.splits list.splits)

lemma score_loop_frame:
  "snd (snd (score_loop model sim stored f kf k thr dbg issues pa st)) =
     st\<lparr>assignee_csv := assignee_csv (snd (snd (score_loop model sim stored f kf k thr dbg issues pa st)))\<rparr>"
proof (induction issues arbitrary: pa st)
  case Nil
  show ?case by simp
next
  case (Cons issue rest)
  show ?case
  proof (cases "sims_row sim (enc_vec model (dget_default issue ''Summary'' (PStr ''''))) stored = []")
    case True
    with Cons.IH [of pa st] show ?thesis by (simp add: Let_def split_def)
  next
    case False
    obtain pa' st1 where a: "assign_lru st = (pa', st1)" by (cases "assign_lru st")
    with assign_lru_frame [of st] have st1: "st1 = st\<lparr>assignee_csv := assignee_csv st1\<rparr>"
      by simp
    let ?R = "score_loop model sim stored f kf k thr dbg rest (Some pa') st1"
    from Cons.IH [of "Some pa'" st1]
    have "snd (snd ?R) = st1\<lparr>assignee_csv := assignee_csv (snd (snd ?R))\<rparr>" .
    with st1 have "snd (snd ?R) = st\<lparr>assignee_csv := assignee_csv (snd (snd ?R))\<rparr>"
      by (metis fs.update_convs(4) fs.surjective)
    with a False show ?thesis by (simp add: Let_def split_def)
  qed
qed

text \<open>The files a query leaves: only the assignee CSV can differ.\<close>

lemma find_keeps_store_files:
  assumes "find_reference_issues model sim issues st kf k thr dbg = Inr (out, st')"
  shows "meta_file st' = meta_file st \<and> emb_file st' = emb_file st \<and> ann_file st' = ann_file st
         \<and> assignee_json st' = assignee_json st"
  using assms
proof (cases rule: find_cases)
  case (scored stored meta rs pa)
  from score_loop_frame [of model sim stored "map_of (rev meta)" kf k thr dbg issues None st] scored(6)
  have "st' = st\<lparr>assignee_csv := assignee_csv st'\<rparr>" by simp
  then show ?thesis by (metis fs.select_convs fs.surjective fs.update_convs(4))
qed simp_all

text \<open>
  On the paths that score nothing, a query leaves every file as it was.
\<close>

lemma find_early_paths_write_nothing:
  assumes "find_reference_issues model sim issues st kf k thr dbg = Inr (out, st')"
    and "emb_file st = None \<or> meta_file st = None \<or> issues = []
         \<or> (\<exists>stored. emb_file st = Some (Npy2D stored) \<and> enc_dim model \<noteq> ncols stored)"
  shows "st' = st"
  using assms(1)
proof (cases rule: find_cases)
  case (scored stored meta rs pa)
  with assms(2) show ?thesis by auto
qed simp_all

text \<open>
  C2, as amended. A query leaves the metadata file, the embedding matrix, the index
  artifact and the assignee JSON file as they were; the assignee CSV file is the only file
  it may write (\<open>assign_lru\<close>, once for every scored record).
\<close>

theorem query_changes_only_assignee_csv:
  assumes "find_reference_issues model sim issues st kf k thr dbg = Inr (out, st')"
  shows "meta_file st' = meta_file st \<and> emb_file st' = emb_file st \<and> ann_file st' = ann_file st
         \<and> assignee_json st' = assignee_json st"
  using assms by (rule find_keeps_store_files)

theorem query_changes_only_assignee_csv_witness:
  "meta_file (files_after ex_store
          (find_reference_issues ex_model dot [ex_query] ex_store ''Issue key'' 2 (1/2) False))
     = Some ex_meta
   \<and> emb_file (files_after ex_store
          (find_reference_issues ex_model dot [ex_query] ex_store ''Issue key'' 2 (1/2) False))
     = Some (Npy2D ex_embs)
   \<and> ann_file (files_after ex_store
          (find_reference_issues ex_model dot [ex_query] ex_store ''Issue key'' 2 (1/2) False))
     = None
   \<and> assignee_json (files_after ex_store
          (find_reference_issues ex_model dot [ex_query] ex_store ''Issue key'' 2 (1/2) False))
     = None"
proof -
  obtain out st' where
    f: "find_reference_issues ex_model dot [ex_query] ex_store ''Issue key'' 2 (1/2) False
          = Inr (out, st')"
    using ex_find_returns by blast
  have F: "files_after ex_store
        (find_reference_issues ex_model dot [ex_query] ex_store ''Issue key'' 2 (1/2) False) = st'"
    by (simp add: files_after_def f)
  from query_changes_only_assignee_csv [OF f] show ?thesis
    unfolding F by (simp add: ex_store_def)
qed

text \<open>
  C2 as stated fails: one scored query record rotates the assignee CSV file.
\<close>

theorem query_rotates_assignee_csv_counterexample:
  "assignee_csv ex_store = Some (CsvRows [Some ''alice'', Some ''bob''])
   \<and> assignee_csv
       (files_after ex_store
          (find_reference_issues ex_model dot [ex_query] ex_store ''Issue key'' 2 (1/2) False))
     = Some (CsvRows [Some ''bob'', Some ''alice''])"
  by (simp add: files_after_def ex_defs eval_defs)

lemma argsort_desc_set: "set (argsort_desc row) = {0..<length row}"
  by (simp add: argsort_desc_def)

lemma argsort_desc_distinct: "distinct (argsort_desc row)"
  by (simp add: argsort_desc_def)

lemma argsort_desc_sorted: "sorted (map (\<lambda>j. - (row ! j)) (argsort_desc row))"
  by (simp add: argsort_desc_def)

lemma score_issue_window:
  assumes "0 \<le> k"
  shows "references (score_issue f kf k thr dbg issue row) =
           window_references f (safe_key issue kf) row thr k"
proof (cases "k = 0")
  case True
  then show ?thesis by (simp add: score_issue_references window_references_def py_upto_def)
next
  case False
  with assms have "max 1 k = k" by simp
  with assms show ?thesis
    by (simp add: score_issue_references window_references_def py_upto_def mult.commute)
qed

text \<open>
  C1, as amended. For \<open>top_k \<ge> 0\<close> the references of a scored record are the first
  \<open>top_k\<close> survivors among the \<open>2 * top_k\<close> best-ranked rows, in rank order. A row
  survives when it has a non-empty metadata entry, does not carry the query's own key and
  scores at least the threshold.
\<close>

theorem references_from_top_2k_window:
  assumes "find_reference_issues model sim issues st kf k thr dbg = Inr (out, st')"
    and "emb_file st = Some (Npy2D stored)" and "meta_file st = Some meta"
    and "enc_dim model = ncols stored" and "0 \<le> k"
  shows "map references (results_of out) =
           map (\<lambda>issue. window_references (map_of (rev meta)) (safe_key issue kf)
                  (sims_row sim (enc_vec model (dget_default issue ''Summary'' (PStr ''''))) stored)
                  thr k)
             issues"
  using assms(1)
proof (cases rule: find_cases)
  case missing
  with assms(2,3) show ?thesis by simp
next
  case (empty stored' meta')
  then show ?thesis by simp
next
  case (mismatch stored' meta')
  with assms(2,4) show ?thesis by simp
next
  case (scored stored' meta' rs pa)
  with assms(2,3) have "stored' = stored" "meta' = meta" by simp_all
  with scored_results [OF scored(6)] scored(5) show ?thesis
    by (simp add: comp_def score_issue_window [OF assms(5)])
qed

theorem references_from_top_2k_window_witness:
  "map (\<lambda>r. map ref_idx (references r))
     (results_after
        (find_reference_issues ex_model dot [ex_query] ex_store ''Issue key'' 2 (1/2) False))
     = [[2]]
   \<and> map references
       (results_after
          (find_reference_issues ex_model dot [ex_query] ex_store ''Issue key'' 2 (1/2) False))
     = [window_references (map_of (rev ex_meta)) ''A-1'' [1, 4/5, 3/5] (1/2) 2]"
proof -
  obtain out st' where
    f: "find_reference_issues ex_model dot [ex_query] ex_store ''Issue key'' 2 (1/2) False
          = Inr (out, st')"
    using ex_find_returns by blast
  have a: "emb_file ex_store = Some (Npy2D ex_embs)" and b: "meta_file ex_store = Some ex_meta"
    and c: "enc_dim ex_model = ncols ex_embs"
    by (simp_all add: ex_defs)
  have w: "map references (results_of out) =
           [window_references (map_of (rev ex_meta)) ''A-1'' [1, 4/5, 3/5] (1/2) 2]"
    using references_from_top_2k_window [OF f a b c]
    by (simp add: ex_defs sims_row_def dot_def safe_key_def py_or_def dget_def dget_default_def)
  have "map (\<lambda>r. map ref_idx (references r)) (results_of out) = map (map ref_idx) (map references (results_of out))"
    by simp
  also have "\<dots> = [[2]]"
    unfolding w
    by (simp add: window_references_def candidate_ref_def ex_defs eval_defs)
  finally have i: "map (\<lambda>r. map ref_idx (references r)) (results_of out) = [[2]]" .
  have R: "results_after
        (find_reference_issues ex_model dot [ex_query] ex_store ''Issue key'' 2 (1/2) False)
          = results_of out"
    by (simp add: results_after_def f)
  show ?thesis unfolding R using w i by simp
qed

text \<open>
  C1 as stated fails: with \<open>top_k = 1\<close> the rows 0 and 1 fill the window and both carry
  the query's key, so nothing is returned, although row 2 survives and no better-ranked
  row does.
\<close>

theorem references_any_rank_counterexample:
  "returned_idxs (find_reference_issues ex_model dot [ex_query] ex_store ''Issue key'' 1 (1/2) False)
     = [[]]
   \<and> sims_row dot (enc_vec ex_model (dget_default ex_query ''Summary'' (PStr ''''))) ex_embs
     = [1, 4/5, 3/5]
   \<and> map ref_idx (spec_references (map_of (rev ex_meta)) (safe_key ex_query ''Issue key'')
                     [1, 4/5, 3/5] (1/2) 1) = [2]"
  by (simp add: returned_idxs_def results_after_def spec_references_def candidate_ref_def ex_defs eval_defs)

section \<open>Properties of the incremental indexer\<close>

lemma update_fresh: "k \<notin> fst ` set al \<Longrightarrow> AList.update k v al = al @ [(k, v)]"
  by (induction al) auto

lemma add_metas_append:
  "\<forall>k \<in> fst ` set meta. k < int n \<Longrightarrow>
   add_metas n ms meta = meta @ zip (map int [n..<n + length ms]) ms"
proof (induction ms arbitrary: n meta)
  case Nil
  then show ?case by simp
next
  case (Cons m ms)
  from Cons.prems have fresh: "int n \<notin> fst ` set meta" by auto
  have "\<forall>k \<in> fst ` set (meta @ [(int n, m)]). k < int (Suc n)"
    using Cons.prems by auto
  from Cons.IH [OF this]
  have "add_metas (Suc n) ms (meta @ [(int n, m)]) =
          (meta @ [(int n, m)]) @ zip (map int [Suc n..<Suc n + length ms]) ms" .
  moreover have "[n..<n + length (m # ms)] = n # [Suc n..<Suc n + length ms]"
    using upt_conv_Cons [of n "Suc n + length ms"] by simp
  ultimately show ?case
    by (simp add: update_fresh [OF fresh] del: upt_Suc)
qed

lemma last_entry_append:
  "last_entry (a @ b) k = (case last_entry b k of Some p \<Rightarrow> Some p | None \<Rightarrow> last_entry a k)"
  by (induction a) (auto split: option.splits)

lemma last_entry_Some:
  "last_entry meta k = Some (j, e) \<Longrightarrow> (j, e) \<in> set meta \<and> map_of e ''key'' = Some k"
  by (induction meta) (auto split: option.splits if_splits)

lemma last_entry_None:
  "last_entry meta k = None \<Longrightarrow> (j, e) \<in> set meta \<Longrightarrow> map_of e ''key'' \<noteq> Some k"
  by (induction meta) (auto split: option.splits if_splits)

lemma key_to_idx_map_of:
  "key_to_idx meta acc = Inr ex \<Longrightarrow>
   map_of ex k = (case last_entry meta k of Some p \<Rightarrow> Some (fst p) | None \<Rightarrow> map_of acc k)"
proof (induction meta arbitrary: acc)
  case Nil
  then show ?case by simp
next
  case (Cons p rest)
  obtain i e where p: "p = (i, e)" by (cases p)
  from Cons.prems p obtain kv where kv: "map_of e ''key'' = Some kv"
    and rec: "key_to_idx rest (AList.update kv i acc) = Inr ex"
    by (auto split: option.splits)
  from Cons.IH [OF rec] show ?case
    using p kv by (auto simp: AList.update_conv' split: option.splits)
qed

lemma key_to_idx_keys:
  "key_to_idx meta acc = Inr ex \<Longrightarrow> (j, e) \<in> set meta \<Longrightarrow> map_of e ''key'' \<noteq> None"
proof (induction meta arbitrary: acc)
  case Nil
  then show ?case by simp
next
  case (Cons p rest)
  then show ?case by (cases p) (auto split: option.splits)
qed

lemma key_to_idx_returns:
  "\<forall>(j, e) \<in> set meta. map_of e ''key'' \<noteq> None \<Longrightarrow> \<exists>ex. key_to_idx meta acc = Inr ex"
proof (induction meta arbitrary: acc)
  case Nil
  then show ?case by simp
next
  case (Cons p rest)
  then show ?case by (cases p) (auto split: option.splits)
qed

lemma index_cases:
  assumes "add_index_new_Data model issues cfg st = Inr (res, st')"
  obtains
    (no_data) embs where
      "load_meta_embs st (embed_dim cfg) = Inr ([], embs)"
      "first_build_items (key_field cfg) issues = []"
      "res = \<lparr>status = no_data, added = 0, index_size = 0\<rparr>" "st' = st"
  | (built) embs where
      "load_meta_embs st (embed_dim cfg) = Inr ([], embs)"
      "first_build_items (key_field cfg) issues \<noteq> []"
      "res = \<lparr>status = built_from_all,
              added = length (first_build_items (key_field cfg) issues),
              index_size = length (first_build_items (key_field cfg) issues)\<rparr>"
      "st' = st\<lparr>meta_file :=
                  Some (zip (map int [0..<length (first_build_items (key_field cfg) issues)])
                          (map snd (first_build_items (key_field cfg) issues))),
                emb_file :=
                  Some (Npy2D (encode model (map fst (first_build_items (key_field cfg) issues)))),
                ann_file :=
                  Some (rows (encode model (map fst (first_build_items (key_field cfg) issues))))\<rparr>"
  | (unchanged) meta embs ex where
      "load_meta_embs st (embed_dim cfg) = Inr (meta, embs)" "meta \<noteq> []"
      "key_to_idx meta [] = Inr ex"
      "incremental_items (key_field cfg) ex meta issues = []"
      "res = \<lparr>status = no_new_or_changed, added = 0, index_size = nrows embs\<rparr>" "st' = st"
  | (appended) meta embs ex embs' where
      "load_meta_embs st (embed_dim cfg) = Inr (meta, embs)" "meta \<noteq> []"
      "key_to_idx meta [] = Inr ex"
      "incremental_items (key_field cfg) ex meta issues \<noteq> []"
      "(if msize embs = 0
        then Inr (encode model (map fst (incremental_items (key_field cfg) ex meta issues)))
        else vstack embs (encode model (map fst (incremental_items (key_field cfg) ex meta issues))))
         = Inr embs'"
      "res = \<lparr>status = incremental_ok,
              added = length (incremental_items (key_field cfg) ex meta issues),
              index_size = nrows embs'\<rparr>"
      "st' = st\<lparr>meta_file :=
                  Some (add_metas (length meta)
                          (map snd (incremental_items (key_field cfg) ex meta issues)) meta),
                emb_file := Some (Npy2D embs'),
                ann_file := (if nrows embs' = 0 then None else Some (rows embs'))\<rparr>"
proof -
  from assms obtain meta embs where load: "load_meta_embs st (embed_dim cfg) = Inr (meta, embs)"
    by (cases "load_meta_embs st (embed_dim cfg)") (auto simp: add_index_new_Data_def)
  from assms load obtain ex where ex: "key_to_idx meta [] = Inr ex"
    by (cases "key_to_idx meta []") (auto simp: add_index_new_Data_def existing_key_to_idx_def)
  show ?thesis
  proof (cases "meta = []")
    case True
    note empty = this
    show ?thesis
    proof (cases "first_build_items (key_field cfg) issues = []")
      case True
      with assms load ex empty have "res = \<lparr>status = no_data, added = 0, index_size = 0\<rparr>"
        and "st' = st"
        by (auto simp: add_index_new_Data_def existing_key_to_idx_def)
      with load empty True show ?thesis by (intro no_data [of embs]) simp_all
    next
      case False
      with assms load ex empty show ?thesis
        by (intro built [of embs])
           (auto simp: add_index_new_Data_def existing_key_to_idx_def Let_def
              build_and_save_annoy_def save_meta_embs_def nrows_def encode_def)
    qed
  next
    case False
    note nonempty = this
    show ?thesis
    proof (cases "incremental_items (key_field cfg) ex meta issues = []")
      case True
      with assms load ex nonempty
      have "res = \<lparr>status = no_new_or_changed, added = 0, index_size = nrows embs\<rparr>"
        and "st' = st"
        by (auto simp: add_index_new_Data_def existing_key_to_idx_def)
      with load nonempty ex True show ?thesis by (intro unchanged [of meta embs ex]) simp_all
    next
      case False
      let ?new = "encode model (map fst (incremental_items (key_field cfg) ex meta issues))"
      from assms load ex nonempty False obtain embs' where
        st: "(if msize embs = 0 then Inr ?new else vstack embs ?new) = Inr embs'"
        by (cases "if msize embs = 0 then Inr ?new else vstack embs ?new")
           (auto simp: add_index_new_Data_def existing_key_to_idx_def Let_def)
      with assms load ex nonempty False show ?thesis
        by (intro appended [of meta embs ex embs'])
           (auto simp: add_index_new_Data_def existing_key_to_idx_def Let_def
              build_and_save_annoy_def save_meta_embs_def)
    qed
  qed
qed

lemma load_both:
  assumes "load_meta_embs st D = Inr (m, e)"
    and "meta_file st = Some meta" and "emb_file st = Some (Npy2D embs)"
  shows "m = meta \<and> e = embs \<and> ncols embs = D"
  using assms by (auto simp: load_meta_embs_def split: if_splits)

lemma load_nonempty:
  assumes "load_meta_embs st D = Inr (meta, embs)" and "meta \<noteq> []"
  shows "meta_file st = Some meta \<and> emb_file st = Some (Npy2D embs) \<and> ncols embs = D"
  using assms
  by (auto simp: load_meta_embs_def split: option.splits npy.splits if_splits)

lemma load_both_intro:
  assumes "meta_file st = Some meta" and "emb_file st = Some (Npy2D embs)"
    and "ncols embs = D"
  shows "load_meta_embs st D = Inr (meta, embs)"
  using assms by (simp add: load_meta_embs_def)

lemma wf_storeD:
  assumes "wf_store st" and "meta_file st = Some meta" and "emb_file st = Some (Npy2D embs)"
  shows "map fst meta = map int [0..<length meta]" and "nrows embs = length meta"
  using assms by (simp_all add: wf_store_def)

lemma dense_keys_below:
  assumes "map fst meta = map int [0..<length meta]"
  shows "\<forall>k \<in> fst ` set meta. k < int (length meta)"
proof -
  have "fst ` set meta = set (map fst meta)" by simp
  also have "\<dots> = int ` {0..<length meta}" unfolding assms by simp
  finally show ?thesis by auto
qed

lemma map_of_dense:
  assumes "map fst m = map int [0..<length m]" and "i < length m"
  shows "map_of m (int i) = Some (snd (m ! i))"
proof -
  have d: "distinct (map fst m)"
    unfolding assms(1) by (simp add: distinct_map inj_on_def)
  have "(int i, snd (m ! i)) \<in> set m"
  proof -
    have "fst (m ! i) = map fst m ! i" using assms(2) by simp
    also have "\<dots> = int i" unfolding assms(1) using assms(2) by simp
    finally have "m ! i = (int i, snd (m ! i))" by (simp add: prod_eq_iff)
    with assms(2) show ?thesis by (metis nth_mem)
  qed
  with d show ?thesis by simp
qed

lemma appended_meta:
  assumes "map fst meta = map int [0..<length meta]"
  shows "add_metas (length meta) ms meta =
           meta @ zip (map int [length meta..<length meta + length ms]) ms"
  by (rule add_metas_append) (rule dense_keys_below [OF assms])

lemma upt_split: "[0..<n + m] = [0..<n] @ [n..<n + m]"
  by (rule upt_add_eq_append) simp

lemma snd_set_zip:
  "length xs = length ys \<Longrightarrow> snd ` set (zip xs ys) = set ys"
proof (induction xs arbitrary: ys)
  case Nil
  then show ?case by simp
next
  case (Cons x xs)
  then show ?case by (cases ys) auto
qed

lemma ex_store_wf: "wf_store ex_store"
  by (simp add: wf_store_def ex_store_def ex_meta_def ex_embs_def nrows_def upt_rec)

lemma ex_run1:
  "\<exists>res1 st1. add_index_new_Data ex_model ex_batch ex_cfg ex_store = Inr (res1, st1)
     \<and> status res1 = incremental_ok \<and> added res1 = 2"
  by (simp add: idx_defs)

text \<open>On a store that satisfies the invariant, a run keeps the old rows as a prefix.\<close>

lemma append_only_prefix:
  assumes "add_index_new_Data model issues cfg st = Inr (res, st')"
    and "wf_store st" and "0 < embed_dim cfg"
    and "meta_file st = Some meta" and "emb_file st = Some (Npy2D embs)"
  shows "\<exists>meta' embs'. meta_file st' = Some meta' \<and> emb_file st' = Some (Npy2D embs')
           \<and> take (length meta) meta' = meta \<and> take (nrows embs) (rows embs') = rows embs
           \<and> length meta' = length meta + added res \<and> nrows embs' = nrows embs + added res
           \<and> (\<forall>i < length meta.
                 map_of meta (int i) = Some (snd (meta ! i))
                 \<and> map_of meta' (int i) = Some (snd (meta ! i))
                 \<and> rows embs' ! i = rows embs ! i)"
proof -
  note wf = wf_storeD [OF assms(2,4,5)]
  have old: "\<forall>i < length meta. map_of meta (int i) = Some (snd (meta ! i))"
    using map_of_dense [OF wf(1)] by simp
  from assms(1) show ?thesis
  proof (cases rule: index_cases)
    case (no_data e)
    with assms(4,5) old show ?thesis by (simp add: nrows_def)
  next
    case (unchanged m e ex)
    with assms(4,5) old show ?thesis by (simp add: nrows_def)
  next
    case (built e)
    from load_both [OF built(1) assms(4,5)] have "meta = []" by simp
    with wf(2) have "nrows embs = 0" by simp
    with \<open>meta = []\<close> built(3,4) show ?thesis by (simp add: nrows_def encode_def)
  next
    case (appended m e ex embs')
    from load_both [OF appended(1) assms(4,5)]
    have m: "m = meta" and e: "e = embs" and nc: "ncols embs = embed_dim cfg" by simp_all
    let ?items = "incremental_items (key_field cfg) ex meta issues"
    let ?new = "encode model (map fst ?items)"
    from appended(2) m wf(2) nc assms(3) have "msize embs \<noteq> 0" by (simp add: msize_def)
    with appended(5) m e have v: "vstack embs ?new = Inr embs'" by simp
    then have rows': "rows embs' = rows embs @ rows ?new"
      by (auto simp: vstack_def split: if_splits)
    have meta': "add_metas (length meta) (map snd ?items) meta =
                   meta @ zip (map int [length meta..<length meta + length ?items]) (map snd ?items)"
      using appended_meta [OF wf(1), of "map snd ?items"] by simp
    have d': "map fst (meta @ zip (map int [length meta..<length meta + length ?items]) (map snd ?items))
               = map int [0..<length meta + length ?items]"
      using wf(1) by (simp add: upt_split [of "length meta" "length ?items"])
    have look: "\<forall>i < length meta.
        map_of (meta @ zip (map int [length meta..<length meta + length ?items]) (map snd ?items)) (int i)
          = Some (snd (meta ! i))"
    proof (intro allI impI)
      fix i assume i: "i < length meta"
      let ?m' = "meta @ zip (map int [length meta..<length meta + length ?items]) (map snd ?items)"
      have len: "length ?m' = length meta + length ?items" by simp
      from d' have "map fst ?m' = map int [0..<length ?m']" by (simp only: len)
      from map_of_dense [OF this, of i] i have "map_of ?m' (int i) = Some (snd (?m' ! i))" by simp
      with i show "map_of ?m' (int i) = Some (snd (meta ! i))" by (simp add: nth_append)
    qed
    from appended(6,7) m meta' rows' look old wf(2) show ?thesis
      by (simp add: nrows_def encode_def nth_append)
  qed
qed

text \<open>A successful indexing run keeps the invariant.\<close>

lemma wf_store_preserved:
  assumes "add_index_new_Data model issues cfg st = Inr (res, st')"
    and "wf_store st" and "0 < embed_dim cfg"
  shows "wf_store st'"
  using assms(1)
proof (cases rule: index_cases)
  case (no_data e)
  with assms(2) show ?thesis by simp
next
  case (unchanged m e ex)
  with assms(2) show ?thesis by simp
next
  case (built e)
  then show ?thesis by (simp add: wf_store_def nrows_def encode_def)
next
  case (appended meta embs ex embs')
  from load_nonempty [OF appended(1,2)]
  have f: "meta_file st = Some meta" "emb_file st = Some (Npy2D embs)"
    and nc: "ncols embs = embed_dim cfg" by simp_all
  note wf = wf_storeD [OF assms(2) f]
  let ?items = "incremental_items (key_field cfg) ex meta issues"
  let ?new = "encode model (map fst ?items)"
  from appended(2) wf(2) nc assms(3) have "msize embs \<noteq> 0" by (simp add: msize_def)
  with appended(5) have v: "vstack embs ?new = Inr embs'" by simp
  then have rows': "rows embs' = rows embs @ rows ?new"
    by (auto simp: vstack_def split: if_splits)
  have meta': "add_metas (length meta) (map snd ?items) meta =
                 meta @ zip (map int [length meta..<length meta + length ?items]) (map snd ?items)"
    using appended_meta [OF wf(1), of "map snd ?items"] by simp
  from appended(7) meta' rows' wf show ?thesis
    by (simp add: wf_store_def nrows_def encode_def upt_split [of "length meta" "length ?items"])
qed

text \<open>Every store the system produces satisfies the invariant.\<close>

lemma reachable_wf_store:
  assumes "reachable cfg st" and "0 < embed_dim cfg"
  shows "wf_store st"
  using assms
proof (induction rule: reachable.induct)
  case (first_use st)
  then show ?case by (simp add: wf_store_def)
next
  case (indexed st model issues res st')
  then show ?case by (auto intro: wf_store_preserved)
next
  case (queried st model sim issues kf k thr dbg out st')
  from find_keeps_store_files [OF queried(2)] queried(3) queried.prems
  show ?case by (simp add: wf_store_def)
qed

lemma new_or_changed_last_entry:
  assumes "key_to_idx meta [] = Inr ex" and "distinct (map fst meta)"
  shows "new_or_changed ex meta key s a =
           (case last_entry meta (PStr key) of
              None \<Rightarrow> True
            | Some (j, e) \<Rightarrow>
                e = [] \<or> py_ne (dget e ''Summary'') s \<or> py_ne (dget e ''Assignee'') a)"
proof (cases "last_entry meta (PStr key)")
  case None
  with key_to_idx_map_of [OF assms(1), of "PStr key"] show ?thesis
    by (simp add: new_or_changed_def)
next
  case (Some p)
  obtain j e where p: "p = (j, e)" by (cases p)
  from Some p last_entry_Some [of meta "PStr key" j e] have "(j, e) \<in> set meta" by simp
  with assms(2) have "map_of meta j = Some e" by simp
  with Some p key_to_idx_map_of [OF assms(1), of "PStr key"] show ?thesis
    by (simp add: new_or_changed_def)
qed

lemma incremental_items_empty:
  assumes "\<And>t. t \<in> set issues \<Longrightarrow> safe_key t kf \<noteq> [] \<Longrightarrow>
             \<not> new_or_changed ex meta (safe_key t kf)
                 (dget_default t ''Summary'' (PStr '''')) (dget t ''Assignee'')"
  shows "incremental_items kf ex meta issues = []"
  using assms by (induction issues) (simp_all add: Let_def)

lemma incremental_items_entry:
  assumes "(s, e) \<in> set (incremental_items kf ex meta issues)"
  shows "\<exists>u \<in> set issues. safe_key u kf \<noteq> [] \<and> entry_of kf u e"
  using assms
  by (induction issues)
     (auto simp: Let_def entry_of_def dget_def split: if_splits)

lemma incremental_items_added:
  assumes "t \<in> set issues" and "safe_key t kf \<noteq> []"
    and "new_or_changed ex meta (safe_key t kf)
           (dget_default t ''Summary'' (PStr '''')) (dget t ''Assignee'')"
  shows "\<exists>e \<in> snd ` set (incremental_items kf ex meta issues).
           map_of e ''key'' = Some (PStr (safe_key t kf))"
  using assms
  by (induction issues) (auto simp: Let_def)

lemma first_build_items_entry:
  assumes "(s, e) \<in> set (first_build_items kf issues)"
    and "\<forall>t \<in> set issues. map_of t ''Summary'' \<noteq> None"
  shows "\<exists>u \<in> set issues. safe_key u kf \<noteq> [] \<and> entry_of kf u e"
  using assms
  by (induction issues)
     (auto simp: Let_def entry_of_def dget_def dget_default_def split: if_splits)

lemma first_build_items_added:
  assumes "t \<in> set issues" and "safe_key t kf \<noteq> []"
  shows "\<exists>e \<in> snd ` set (first_build_items kf issues).
           map_of e ''key'' = Some (PStr (safe_key t kf))"
  using assms
  by (induction issues) (auto simp: Let_def)

lemma second_pass:
  assumes ex1: "key_to_idx (old @ new) [] = Inr ex1"
    and dist: "distinct (map fst (old @ new))"
    and agree: "same_key_same_content kf issues"
    and A: "\<And>j e. (j, e) \<in> set new \<Longrightarrow> \<exists>u \<in> set issues. entry_of kf u e"
    and B: "(\<exists>p \<in> set new. map_of (snd p) ''key'' = Some (PStr (safe_key t kf)))
            \<or> (\<exists>j e. last_entry old (PStr (safe_key t kf)) = Some (j, e) \<and> e \<noteq> []
                  \<and> py_eq (dget e ''Summary'') (dget_default t ''Summary'' (PStr ''''))
                  \<and> py_eq (dget e ''Assignee'') (dget t ''Assignee''))"
    and t: "t \<in> set issues"
  shows "\<not> new_or_changed ex1 (old @ new) (safe_key t kf)
             (dget_default t ''Summary'' (PStr '''')) (dget t ''Assignee'')"
proof (cases "last_entry new (PStr (safe_key t kf))")
  case None
  then have "\<And>p. p \<in> set new \<Longrightarrow> map_of (snd p) ''key'' \<noteq> Some (PStr (safe_key t kf))"
    using last_entry_None [of new "PStr (safe_key t kf)"] by (metis prod.collapse)
  with B obtain j e where old: "last_entry old (PStr (safe_key t kf)) = Some (j, e)"
    and m: "e \<noteq> []" "py_eq (dget e ''Summary'') (dget_default t ''Summary'' (PStr ''''))"
           "py_eq (dget e ''Assignee'') (dget t ''Assignee'')"
    by blast
  from None old have "last_entry (old @ new) (PStr (safe_key t kf)) = Some (j, e)"
    by (simp add: last_entry_append)
  with m show ?thesis
    by (simp add: new_or_changed_last_entry [OF ex1 dist] py_ne_def)
next
  case (Some p)
  obtain j e where p: "p = (j, e)" by (cases p)
  from Some p last_entry_Some [of new "PStr (safe_key t kf)" j e]
  have mem: "(j, e) \<in> set new" and k: "map_of e ''key'' = Some (PStr (safe_key t kf))"
    by simp_all
  from A [OF mem] obtain u where u: "u \<in> set issues" and eu: "entry_of kf u e" by blast
  from eu k have "safe_key u kf = safe_key t kf" by (simp add: entry_of_def)
  with agree u t have
    "py_eq (dget_default u ''Summary'' (PStr '''')) (dget_default t ''Summary'' (PStr ''''))"
    "py_eq (dget u ''Assignee'') (dget t ''Assignee'')"
    unfolding same_key_same_content_def by blast+
  with eu have m: "e \<noteq> []"
    "py_eq (dget e ''Summary'') (dget_default t ''Summary'' (PStr ''''))"
    "py_eq (dget e ''Assignee'') (dget t ''Assignee'')"
    by (simp_all add: entry_of_def)
  from Some p have "last_entry (old @ new) (PStr (safe_key t kf)) = Some (j, e)"
    by (simp add: last_entry_append)
  with m show ?thesis
    by (simp add: new_or_changed_last_entry [OF ex1 dist] py_ne_def)
qed

lemma index_unchanged_intro:
  assumes "load_meta_embs st (embed_dim cfg) = Inr (meta, embs)" and "meta \<noteq> []"
    and "key_to_idx meta [] = Inr ex"
    and "incremental_items (key_field cfg) ex meta issues = []"
  shows "add_index_new_Data model issues cfg st =
           Inr (\<lparr>status = no_new_or_changed, added = 0, index_size = nrows embs\<rparr>, st)"
  using assms by (simp add: add_index_new_Data_def existing_key_to_idx_def)

lemma second_run_unchanged:
  assumes meta1: "meta_file st1 = Some (old @ new)"
    and embs1: "emb_file st1 = Some (Npy2D embs1)"
    and cols: "ncols embs1 = embed_dim cfg"
    and ne: "old @ new \<noteq> []"
    and keys_old: "\<And>j e. (j, e) \<in> set old \<Longrightarrow> map_of e ''key'' \<noteq> None"
    and dist: "distinct (map fst (old @ new))"
    and agree: "same_key_same_content (key_field cfg) issues"
    and A: "\<And>j e. (j, e) \<in> set new \<Longrightarrow> \<exists>u \<in> set issues. entry_of (key_field cfg) u e"
    and B: "\<And>t. t \<in> set issues \<Longrightarrow> safe_key t (key_field cfg) \<noteq> [] \<Longrightarrow>
              (\<exists>p \<in> set new. map_of (snd p) ''key'' = Some (PStr (safe_key t (key_field cfg))))
              \<or> (\<exists>j e. last_entry old (PStr (safe_key t (key_field cfg))) = Some (j, e) \<and> e \<noteq> []
                    \<and> py_eq (dget e ''Summary'') (dget_default t ''Summary'' (PStr ''''))
                    \<and> py_eq (dget e ''Assignee'') (dget t ''Assignee''))"
  shows "add_index_new_Data model issues cfg st1 =
           Inr (\<lparr>status = no_new_or_changed, added = 0, index_size = nrows embs1\<rparr>, st1)"
proof -
  have load: "load_meta_embs st1 (embed_dim cfg) = Inr (old @ new, embs1)"
    by (rule load_both_intro [OF meta1 embs1 cols])
  have "map_of e ''key'' \<noteq> None" if "(j, e) \<in> set (old @ new)" for j e
  proof -
    from that consider "(j, e) \<in> set old" | "(j, e) \<in> set new" by auto
    then show ?thesis
    proof cases
      case 1
      from keys_old [OF 1] show ?thesis .
    next
      case 2
      from A [OF 2] show ?thesis by (auto simp: entry_of_def)
    qed
  qed
  then have "\<forall>(j, e) \<in> set (old @ new). map_of e ''key'' \<noteq> None" by blast
  from key_to_idx_returns [OF this, of "[]"] obtain ex1 where
    ex1: "key_to_idx (old @ new) [] = Inr ex1" by blast
  have "incremental_items (key_field cfg) ex1 (old @ new) issues = []"
  proof (rule incremental_items_empty)
    fix t assume t: "t \<in> set issues" and k: "safe_key t (key_field cfg) \<noteq> []"
    show "\<not> new_or_changed ex1 (old @ new) (safe_key t (key_field cfg))
             (dget_default t ''Summary'' (PStr '''')) (dget t ''Assignee'')"
      by (rule second_pass [OF ex1 dist agree A B [OF t k] t])
  qed
  from index_unchanged_intro [OF load ne ex1 this] show ?thesis .
qed

text \<open>
  C4, as amended. On a store that satisfies the invariant, with an encoder of the
  configured dimension, a non-empty batch of key-bearing records that all have a
  \<^verbatim>\<open>Summary\<close> field, and in which records of one key have equal summaries and
  equal assignees under \<^verbatim>\<open>==\<close> (so none of them is \<^verbatim>\<open>nan\<close>): after a successful
  run, a second run with the same batch returns \<^verbatim>\<open>no_new_or_changed\<close> with zero rows
  added and writes nothing.
\<close>

theorem reindex_same_batch_unchanged:
  assumes run1: "add_index_new_Data model issues cfg st = Inr (res1, st1)"
    and wf: "wf_store st" and pos: "0 < embed_dim cfg" and dim: "enc_dim model = embed_dim cfg"
    and ne: "issues \<noteq> []"
    and keyed: "\<forall>t \<in> set issues. safe_key t (key_field cfg) \<noteq> []"
    and summ: "\<forall>t \<in> set issues. map_of t ''Summary'' \<noteq> None"
    and agree: "same_key_same_content (key_field cfg) issues"
  shows "\<exists>n. add_index_new_Data model issues cfg st1 =
               Inr (\<lparr>status = no_new_or_changed, added = 0, index_size = n\<rparr>, st1)"
  using run1
proof (cases rule: index_cases)
  case (no_data e)
  from ne obtain t where t: "t \<in> set issues" by (cases issues) auto
  with keyed have "safe_key t (key_field cfg) \<noteq> []" by simp
  from first_build_items_added [OF t this] no_data(2) show ?thesis by simp
next
  case (unchanged m e ex)
  with run1 show ?thesis by auto
next
  case (built e)
  let ?items = "first_build_items (key_field cfg) issues"
  let ?new = "zip (map int [0..<length ?items]) (map snd ?items)"
  let ?embs = "encode model (map fst ?items)"
  have meta1: "meta_file st1 = Some ([] @ ?new)" and embs1: "emb_file st1 = Some (Npy2D ?embs)"
    using built(4) by simp_all
  have cols: "ncols ?embs = embed_dim cfg" using dim by (simp add: encode_def)
  have ne1: "[] @ ?new \<noteq> []" using built(2) by (cases ?items) (simp_all add: upt_rec)
  have sndnew: "snd ` set ?new = snd ` set ?items"
    using snd_set_zip [of "map int [0..<length ?items]" "map snd ?items"] by simp
  have dist: "distinct (map fst ([] @ ?new))"
    by (simp add: distinct_map inj_on_def)
  have A: "\<And>j e. (j, e) \<in> set ?new \<Longrightarrow> \<exists>u \<in> set issues. entry_of (key_field cfg) u e"
  proof -
    fix j e assume "(j, e) \<in> set ?new"
    then have "e \<in> snd ` set ?new" by force
    with sndnew obtain s where "(s, e) \<in> set ?items" by auto
    from first_build_items_entry [OF this summ] show "\<exists>u \<in> set issues. entry_of (key_field cfg) u e"
      by blast
  qed
  have B: "\<And>t. t \<in> set issues \<Longrightarrow> safe_key t (key_field cfg) \<noteq> [] \<Longrightarrow>
              (\<exists>p \<in> set ?new. map_of (snd p) ''key'' = Some (PStr (safe_key t (key_field cfg))))
              \<or> (\<exists>j e. last_entry [] (PStr (safe_key t (key_field cfg))) = Some (j, e) \<and> e \<noteq> []
                    \<and> py_eq (dget e ''Summary'') (dget_default t ''Summary'' (PStr ''''))
                    \<and> py_eq (dget e ''Assignee'') (dget t ''Assignee''))"
  proof -
    fix t assume t: "t \<in> set issues" and k: "safe_key t (key_field cfg) \<noteq> []"
    from first_build_items_added [OF t k] sndnew
    have "\<exists>e \<in> snd ` set ?new. map_of e ''key'' = Some (PStr (safe_key t (key_field cfg)))"
      by simp
    then have "\<exists>p \<in> set ?new. map_of (snd p) ''key'' = Some (PStr (safe_key t (key_field cfg)))"
      by auto
    then show "(\<exists>p \<in> set ?new. map_of (snd p) ''key'' = Some (PStr (safe_key t (key_field cfg))))
              \<or> (\<exists>j e. last_entry [] (PStr (safe_key t (key_field cfg))) = Some (j, e) \<and> e \<noteq> []
                    \<and> py_eq (dget e ''Summary'') (dget_default t ''Summary'' (PStr ''''))
                    \<and> py_eq (dget e ''Assignee'') (dget t ''Assignee''))" ..
  qed
  have "add_index_new_Data model issues cfg st1 =
           Inr (\<lparr>status = no_new_or_changed, added = 0, index_size = nrows ?embs\<rparr>, st1)"
    by (rule second_run_unchanged [OF meta1 embs1 cols ne1 _ dist agree A B]) simp_all
  then show ?thesis by blast
next
  case (appended meta embs ex embs')
  from load_nonempty [OF appended(1,2)]
  have f: "meta_file st = Some meta" "emb_file st = Some (Npy2D embs)"
    and nc: "ncols embs = embed_dim cfg" by simp_all
  note w = wf_storeD [OF wf f]
  let ?items = "incremental_items (key_field cfg) ex meta issues"
  let ?new = "zip (map int [length meta..<length meta + length ?items]) (map snd ?items)"
  let ?enc = "encode model (map fst ?items)"
  from appended(2) w(2) nc pos have "msize embs \<noteq> 0" by (simp add: msize_def)
  with appended(5) have v: "vstack embs ?enc = Inr embs'" by simp
  then have cols: "ncols embs' = embed_dim cfg"
    using nc by (auto simp: vstack_def split: if_splits)
  have m1: "add_metas (length meta) (map snd ?items) meta = meta @ ?new"
    using appended_meta [OF w(1), of "map snd ?items"] by simp
  have meta1: "meta_file st1 = Some (meta @ ?new)" and embs1: "emb_file st1 = Some (Npy2D embs')"
    using appended(7) m1 by simp_all
  have ne1: "meta @ ?new \<noteq> []" using appended(2) by simp
  have d0: "distinct (map fst meta)"
    unfolding w(1) by (simp add: distinct_map inj_on_def)
  have "map fst (meta @ ?new) = map int [0..<length meta + length ?items]"
    using w(1) by (simp add: upt_split [of "length meta" "length ?items"])
  then have dist: "distinct (map fst (meta @ ?new))"
    by (simp only: distinct_map distinct_upt) (simp add: inj_on_def)
  have sndnew: "snd ` set ?new = snd ` set ?items"
    using snd_set_zip [of "map int [length meta..<length meta + length ?items]" "map snd ?items"]
    by simp
  have keys_old: "\<And>j e. (j, e) \<in> set meta \<Longrightarrow> map_of e ''key'' \<noteq> None"
    by (rule key_to_idx_keys [OF appended(3)])
  have A: "\<And>j e. (j, e) \<in> set ?new \<Longrightarrow> \<exists>u \<in> set issues. entry_of (key_field cfg) u e"
  proof -
    fix j e assume "(j, e) \<in> set ?new"
    then have "e \<in> snd ` set ?new" by force
    with sndnew obtain s where "(s, e) \<in> set ?items" by auto
    from incremental_items_entry [OF this] show "\<exists>u \<in> set issues. entry_of (key_field cfg) u e"
      by blast
  qed
  have B: "\<And>t. t \<in> set issues \<Longrightarrow> safe_key t (key_field cfg) \<noteq> [] \<Longrightarrow>
              (\<exists>p \<in> set ?new. map_of (snd p) ''key'' = Some (PStr (safe_key t (key_field cfg))))
              \<or> (\<exists>j e. last_entry meta (PStr (safe_key t (key_field cfg))) = Some (j, e) \<and> e \<noteq> []
                    \<and> py_eq (dget e ''Summary'') (dget_default t ''Summary'' (PStr ''''))
                    \<and> py_eq (dget e ''Assignee'') (dget t ''Assignee''))"
  proof -
    fix t assume t: "t \<in> set issues" and k: "safe_key t (key_field cfg) \<noteq> []"
    show "(\<exists>p \<in> set ?new. map_of (snd p) ''key'' = Some (PStr (safe_key t (key_field cfg))))
              \<or> (\<exists>j e. last_entry meta (PStr (safe_key t (key_field cfg))) = Some (j, e) \<and> e \<noteq> []
                    \<and> py_eq (dget e ''Summary'') (dget_default t ''Summary'' (PStr ''''))
                    \<and> py_eq (dget e ''Assignee'') (dget t ''Assignee''))"
    proof (cases "new_or_changed ex meta (safe_key t (key_field cfg))
                    (dget_default t ''Summary'' (PStr '''')) (dget t ''Assignee'')")
      case True
      from incremental_items_added [OF t k True] sndnew
      have "\<exists>e \<in> snd ` set ?new. map_of e ''key'' = Some (PStr (safe_key t (key_field cfg)))"
        by simp
      then have "\<exists>p \<in> set ?new. map_of (snd p) ''key'' = Some (PStr (safe_key t (key_field cfg)))"
        by auto
      then show ?thesis ..
    next
      case False
      then have "\<exists>j e. last_entry meta (PStr (safe_key t (key_field cfg))) = Some (j, e) \<and> e \<noteq> []
                    \<and> py_eq (dget e ''Summary'') (dget_default t ''Summary'' (PStr ''''))
                    \<and> py_eq (dget e ''Assignee'') (dget t ''Assignee'')"
        unfolding new_or_changed_last_entry [OF appended(3) d0]
        by (auto simp: py_ne_def split: option.splits)
      then show ?thesis ..
    qed
  qed
  have "add_index_new_Data model issues cfg st1 =
           Inr (\<lparr>status = no_new_or_changed, added = 0, index_size = nrows embs'\<rparr>, st1)"
    by (rule second_run_unchanged [OF meta1 embs1 cols ne1 keys_old dist agree A B])
  then show ?thesis by blast
qed

theorem reindex_same_batch_unchanged_witness:
  "index_status (add_index_new_Data ex_model ex_batch ex_cfg ex_store) = Some (incremental_ok, 2)
   \<and> index_status
       (add_index_new_Data ex_model ex_batch ex_cfg
          (files_after ex_store (add_index_new_Data ex_model ex_batch ex_cfg ex_store)))
     = Some (no_new_or_changed, 0)"
proof -
  from ex_run1 obtain res1 st1 where
    r1: "add_index_new_Data ex_model ex_batch ex_cfg ex_store = Inr (res1, st1)"
    and s1: "status res1 = incremental_ok" "added res1 = 2"
    by blast
  have F: "files_after ex_store (add_index_new_Data ex_model ex_batch ex_cfg ex_store) = st1"
    by (simp add: files_after_def r1)
  have pos: "0 < embed_dim ex_cfg" and dm: "enc_dim ex_model = embed_dim ex_cfg"
    and ne: "ex_batch \<noteq> []"
    by (simp_all add: ex_cfg_def ex_model_def ex_batch_def)
  have keyed: "\<forall>t \<in> set ex_batch. safe_key t (key_field ex_cfg) \<noteq> []"
    by (simp add: ex_batch_def ex_cfg_def safe_key_def py_or_def dget_def)
  have summ: "\<forall>t \<in> set ex_batch. map_of t ''Summary'' \<noteq> None"
    by (simp add: ex_batch_def)
  have agree: "same_key_same_content (key_field ex_cfg) ex_batch"
    by (simp add: same_key_same_content_def ex_batch_def ex_cfg_def safe_key_def py_or_def
          dget_def dget_default_def py_eq_def)
  from reindex_same_batch_unchanged [OF r1 ex_store_wf pos dm ne keyed summ agree]
  obtain n where
    "add_index_new_Data ex_model ex_batch ex_cfg st1 =
       Inr (\<lparr>status = no_new_or_changed, added = 0, index_size = n\<rparr>, st1)"
    by blast
  then have "index_status (add_index_new_Data ex_model ex_batch ex_cfg st1)
               = Some (no_new_or_changed, 0)"
    by (simp add: index_status_def)
  moreover have "index_status (add_index_new_Data ex_model ex_batch ex_cfg ex_store)
               = Some (incremental_ok, 2)"
    by (simp add: index_status_def r1 s1)
  ultimately show ?thesis unfolding F by simp
qed

text \<open>
  C4 as stated fails: a batch that holds one key with two summaries is built as two rows;
  in the second run the first record differs from the last row of its key and is added
  again.
\<close>

theorem reindex_duplicate_keys_counterexample:
  "index_status (add_index_new_Data ex_model ex_dup_batch ex_cfg ex_empty)
     = Some (built_from_all, 2)
   \<and> index_status
       (add_index_new_Data ex_model ex_dup_batch ex_cfg
          (files_after ex_empty (add_index_new_Data ex_model ex_dup_batch ex_cfg ex_empty)))
     = Some (incremental_ok, 1)"
  by (simp add: index_status_def files_after_def idx_defs)

text \<open>
  The first-run path stores \<^verbatim>\<open>t.get("Summary")\<close>, the incremental path compares with
  \<^verbatim>\<open>t.get("Summary", "")\<close>: a record without the field is stored with \<^verbatim>\<open>None\<close> and
  counts as changed in the next run.
\<close>

lemma reindex_missing_summary:
  "index_status (add_index_new_Data ex_model ex_no_summary_batch ex_cfg ex_empty)
     = Some (built_from_all, 1)
   \<and> index_status
       (add_index_new_Data ex_model ex_no_summary_batch ex_cfg
          (files_after ex_empty (add_index_new_Data ex_model ex_no_summary_batch ex_cfg ex_empty)))
     = Some (incremental_ok, 1)"
  by (simp add: index_status_def files_after_def idx_defs)

text \<open>
  An empty \<^verbatim>\<open>Assignee\<close> cell of a CSV file is \<^verbatim>\<open>nan\<close>, which \<^verbatim>\<open>!=\<close> tells from
  itself: such a record counts as changed in every run.
\<close>

lemma reindex_nan_assignee:
  "index_status (add_index_new_Data ex_model ex_nan_batch ex_cfg ex_empty)
     = Some (built_from_all, 1)
   \<and> index_status
       (add_index_new_Data ex_model ex_nan_batch ex_cfg
          (files_after ex_empty (add_index_new_Data ex_model ex_nan_batch ex_cfg ex_empty)))
     = Some (incremental_ok, 1)"
  by (simp add: index_status_def files_after_def idx_defs)

text \<open>
  The rows a run appends: every record that needs a row has one among the new rows.
\<close>

lemma incremental_items_row:
  assumes "t \<in> set issues" and "safe_key t kf \<noteq> []"
    and "new_or_changed ex meta (safe_key t kf)
           (dget_default t ''Summary'' (PStr '''')) (dget t ''Assignee'')"
  shows "\<exists>e \<in> snd ` set (incremental_items kf ex meta issues). entry_of kf t e"
  using assms
  by (induction issues) (auto simp: Let_def entry_of_def dget_def)

lemma first_build_items_row:
  assumes "t \<in> set issues" and "safe_key t kf \<noteq> []"
  shows "\<exists>e \<in> snd ` set (first_build_items kf issues).
           e \<noteq> [] \<and> map_of e ''key'' = Some (PStr (safe_key t kf))
           \<and> dget e ''Assignee'' = dget t ''Assignee''
           \<and> dget e ''Summary'' = dget t ''Summary''"
  using assms
  by (induction issues) (auto simp: Let_def dget_def)

lemma summary_present:
  "map_of t ''Summary'' \<noteq> None \<Longrightarrow> dget t ''Summary'' = dget_default t ''Summary'' (PStr '''')"
  by (auto simp: dget_def dget_default_def)

lemma appended_row_position:
  assumes "e \<in> set es" and "map fst old = map int [0..<length old]"
  shows "\<exists>i. length old \<le> i \<and> i < length old + length es
           \<and> map_of (old @ zip (map int [length old..<length old + length es]) es) (int i) = Some e"
proof -
  let ?m = "old @ zip (map int [length old..<length old + length es]) es"
  from assms(1) obtain j where j: "j < length es" "es ! j = e"
    by (auto simp: in_set_conv_nth)
  have len: "length ?m = length old + length es" by simp
  have "map fst ?m = map int [0..<length old + length es]"
    using assms(2) by (simp add: upt_split [of "length old" "length es"])
  then have "map fst ?m = map int [0..<length ?m]" by (simp only: len)
  from map_of_dense [OF this, of "length old + j"] j(1)
  have "map_of ?m (int (length old + j)) = Some (snd (?m ! (length old + j)))" by simp
  also have "snd (?m ! (length old + j)) = e" using j by (simp add: nth_append)
  finally show ?thesis using j(1) by (intro exI [of _ "length old + j"]) simp
qed

lemma needs_row_new_or_changed:
  assumes "key_to_idx meta [] = Inr ex" and "distinct (map fst meta)"
    and "needs_row meta kf t"
  shows "new_or_changed ex meta (safe_key t kf)
           (dget_default t ''Summary'' (PStr '''')) (dget t ''Assignee'')"
  using assms(3) unfolding new_or_changed_last_entry [OF assms(1,2)] needs_row_def
  by (auto split: option.splits)

lemma changed_rows_appended:
  assumes run: "add_index_new_Data model issues cfg st = Inr (res, st')"
    and wf: "wf_store st" and pos: "0 < embed_dim cfg"
    and files: "meta_file st = Some meta" "emb_file st = Some (Npy2D embs)"
    and meta': "meta_file st' = Some meta'"
    and t: "t \<in> set issues" and need: "needs_row meta (key_field cfg) t"
  shows "\<exists>i e. length meta \<le> i \<and> i < length meta' \<and> map_of meta' (int i) = Some e
           \<and> e \<noteq> [] \<and> map_of e ''key'' = Some (PStr (safe_key t (key_field cfg)))
           \<and> dget e ''Assignee'' = dget t ''Assignee''
           \<and> (meta \<noteq> [] \<or> map_of t ''Summary'' \<noteq> None \<longrightarrow>
                dget e ''Summary'' = dget_default t ''Summary'' (PStr ''''))"
proof -
  note w = wf_storeD [OF wf files]
  have d0: "distinct (map fst meta)"
    unfolding w(1) by (simp add: distinct_map inj_on_def)
  from need have k: "safe_key t (key_field cfg) \<noteq> []" by (simp add: needs_row_def)
  from run show ?thesis
  proof (cases rule: index_cases)
    case (no_data e)
    from first_build_items_added [OF t k] no_data(2) show ?thesis by simp
  next
    case (unchanged m e ex)
    from load_both [OF unchanged(1) files] have m: "m = meta" by simp
    from needs_row_new_or_changed [OF unchanged(3) [unfolded m] d0 need]
    have "new_or_changed ex meta (safe_key t (key_field cfg))
            (dget_default t ''Summary'' (PStr '''')) (dget t ''Assignee'')" .
    from incremental_items_added [OF t k this] unchanged(4) m show ?thesis by simp
  next
    case (built e0)
    from load_both [OF built(1) files] have m: "meta = []" by simp
    let ?items = "first_build_items (key_field cfg) issues"
    from first_build_items_row [OF t k] obtain e where
      e: "e \<in> snd ` set ?items" "e \<noteq> []"
         "map_of e ''key'' = Some (PStr (safe_key t (key_field cfg)))"
         "dget e ''Assignee'' = dget t ''Assignee''" "dget e ''Summary'' = dget t ''Summary''"
      by blast
    from e(1) have "e \<in> set (map snd ?items)" by simp
    from appended_row_position [OF this, of "[]"] obtain i where
      i: "i < length ?items"
         "map_of (zip (map int [0..<length ?items]) (map snd ?items)) (int i) = Some e"
      by auto
    from built(4) meta' have
      "meta' = zip (map int [0..<length ?items]) (map snd ?items)" by simp
    with i e m show ?thesis
      by (intro exI [of _ i] exI [of _ e]) (auto simp: summary_present)
  next
    case (appended m e0 ex embs')
    from load_both [OF appended(1) files] have m: "m = meta" by simp
    let ?items = "incremental_items (key_field cfg) ex meta issues"
    from needs_row_new_or_changed [OF appended(3) [unfolded m] d0 need]
    have "new_or_changed ex meta (safe_key t (key_field cfg))
            (dget_default t ''Summary'' (PStr '''')) (dget t ''Assignee'')" .
    from incremental_items_row [OF t k this] obtain e where
      e: "e \<in> snd ` set ?items" "entry_of (key_field cfg) t e" by blast
    from e(1) have "e \<in> set (map snd ?items)" by simp
    from appended_row_position [OF this w(1)] have
      "\<exists>i. length meta \<le> i \<and> i < length meta + length ?items
         \<and> map_of (meta @ zip (map int [length meta..<length meta + length ?items]) (map snd ?items))
              (int i) = Some e"
      by (simp del: map_of_append)
    then obtain i where
      i: "length meta \<le> i" "i < length meta + length ?items"
         "map_of (meta @ zip (map int [length meta..<length meta + length ?items]) (map snd ?items))
            (int i) = Some e"
      by blast
    have "add_metas (length meta) (map snd ?items) meta =
            meta @ zip (map int [length meta..<length meta + length ?items]) (map snd ?items)"
      using appended_meta [OF w(1), of "map snd ?items"] by simp
    with appended(7) meta' m have
      "meta' = meta @ zip (map int [length meta..<length meta + length ?items]) (map snd ?items)"
      by simp
    with i e(2) show ?thesis
      by (intro exI [of _ i] exI [of _ e]) (auto simp: entry_of_def)
  qed
qed

text \<open>
  C7, as amended. On a store that satisfies the invariant (with a positive dimension),
  a successful indexing run keeps the metadata and the matrix as prefixes of the new ones:
  every old row index maps to the entry and to the vector row it had, and exactly
  \<open>added\<close> rows follow. Every record of the batch that is new or changed has a row
  among the new ones, with its key and assignee, and with its summary when the store was
  not empty or the record has a \<^verbatim>\<open>Summary\<close> field. The row a changed record
  supersedes stays.
\<close>

theorem append_only_rows:
  assumes "add_index_new_Data model issues cfg st = Inr (res, st')"
    and "wf_store st" and "0 < embed_dim cfg"
    and "meta_file st = Some meta" and "emb_file st = Some (Npy2D embs)"
  shows "\<exists>meta' embs'. meta_file st' = Some meta' \<and> emb_file st' = Some (Npy2D embs')
           \<and> take (length meta) meta' = meta \<and> take (nrows embs) (rows embs') = rows embs
           \<and> length meta' = length meta + added res \<and> nrows embs' = nrows embs + added res
           \<and> (\<forall>i < length meta.
                 map_of meta (int i) = Some (snd (meta ! i))
                 \<and> map_of meta' (int i) = Some (snd (meta ! i))
                 \<and> rows embs' ! i = rows embs ! i)
           \<and> (\<forall>t \<in> set issues. needs_row meta (key_field cfg) t \<longrightarrow>
                 (\<exists>i e. length meta \<le> i \<and> i < length meta' \<and> map_of meta' (int i) = Some e
                    \<and> e \<noteq> [] \<and> map_of e ''key'' = Some (PStr (safe_key t (key_field cfg)))
                    \<and> dget e ''Assignee'' = dget t ''Assignee''
                    \<and> (meta \<noteq> [] \<or> map_of t ''Summary'' \<noteq> None \<longrightarrow>
                         dget e ''Summary'' = dget_default t ''Summary'' (PStr ''''))))"
proof -
  from append_only_prefix [OF assms] obtain meta' embs' where
    p: "meta_file st' = Some meta'" "emb_file st' = Some (Npy2D embs')"
       "take (length meta) meta' = meta" "take (nrows embs) (rows embs') = rows embs"
       "length meta' = length meta + added res" "nrows embs' = nrows embs + added res"
       "\<forall>i < length meta.
                 map_of meta (int i) = Some (snd (meta ! i))
                 \<and> map_of meta' (int i) = Some (snd (meta ! i))
                 \<and> rows embs' ! i = rows embs ! i"
    by blast
  have "\<forall>t \<in> set issues. needs_row meta (key_field cfg) t \<longrightarrow>
                 (\<exists>i e. length meta \<le> i \<and> i < length meta' \<and> map_of meta' (int i) = Some e
                    \<and> e \<noteq> [] \<and> map_of e ''key'' = Some (PStr (safe_key t (key_field cfg)))
                    \<and> dget e ''Assignee'' = dget t ''Assignee''
                    \<and> (meta \<noteq> [] \<or> map_of t ''Summary'' \<noteq> None \<longrightarrow>
                         dget e ''Summary'' = dget_default t ''Summary'' (PStr '''')))"
    using changed_rows_appended [OF assms p(1)] by blast
  with p show ?thesis by blast
qed

theorem append_only_rows_witness:
  "needs_row ex_meta ''Issue key''
     [(''Issue key'', PStr ''A-1''), (''Summary'', PStr ''login fails on SSO'')]
   \<and> (\<exists>meta' embs'.
      meta_file (files_after ex_store (add_index_new_Data ex_model ex_batch ex_cfg ex_store))
        = Some meta'
      \<and> emb_file (files_after ex_store (add_index_new_Data ex_model ex_batch ex_cfg ex_store))
        = Some (Npy2D embs')
      \<and> take 3 meta' = ex_meta \<and> take 3 (rows embs') = rows ex_embs
      \<and> length meta' = 5 \<and> nrows embs' = 5
      \<and> map_of meta' 1 = Some [(''key'', PStr ''A-1''), (''Summary'', PStr ''login fails again'')]
      \<and> (\<exists>i e. 3 \<le> i \<and> i < length meta' \<and> map_of meta' (int i) = Some e
            \<and> map_of e ''key'' = Some (PStr ''A-1'')
            \<and> dget e ''Summary'' = PStr ''login fails on SSO''))"
proof -
  from ex_run1 obtain res1 st1 where
    r1: "add_index_new_Data ex_model ex_batch ex_cfg ex_store = Inr (res1, st1)"
    and s1: "status res1 = incremental_ok" "added res1 = 2"
    by blast
  have F: "files_after ex_store (add_index_new_Data ex_model ex_batch ex_cfg ex_store) = st1"
    by (simp add: files_after_def r1)
  have pos: "0 < embed_dim ex_cfg" by (simp add: ex_cfg_def)
  have a: "meta_file ex_store = Some ex_meta" and b: "emb_file ex_store = Some (Npy2D ex_embs)"
    by (simp_all add: ex_store_def)
  let ?t = "[(''Issue key'', PStr ''A-1''), (''Summary'', PStr ''login fails on SSO'')]"
  have need: "needs_row ex_meta ''Issue key'' ?t"
    by (simp add: needs_row_def ex_meta_def safe_key_def py_or_def dget_def dget_default_def
          py_ne_def py_eq_def)
  have mem: "?t \<in> set ex_batch" by (simp add: ex_batch_def)
  have kf: "key_field ex_cfg = ''Issue key''" by (simp add: ex_cfg_def)
  have sk: "safe_key ?t ''Issue key'' = ''A-1''"
    by (simp add: safe_key_def py_or_def dget_def)
  have sm: "dget_default ?t ''Summary'' (PStr '''') = PStr ''login fails on SSO''"
    by (simp add: dget_default_def)
  from append_only_rows [OF r1 ex_store_wf pos a b] obtain meta' embs' where
    m: "meta_file st1 = Some meta'" and e: "emb_file st1 = Some (Npy2D embs')"
    and t: "take (length ex_meta) meta' = ex_meta" "take (nrows ex_embs) (rows embs') = rows ex_embs"
    and l: "length meta' = length ex_meta + added res1" "nrows embs' = nrows ex_embs + added res1"
    and k: "\<forall>i < length ex_meta.
                 map_of ex_meta (int i) = Some (snd (ex_meta ! i))
                 \<and> map_of meta' (int i) = Some (snd (ex_meta ! i))
                 \<and> rows embs' ! i = rows ex_embs ! i"
    and n: "\<forall>t \<in> set ex_batch. needs_row ex_meta (key_field ex_cfg) t \<longrightarrow>
                 (\<exists>i e. length ex_meta \<le> i \<and> i < length meta' \<and> map_of meta' (int i) = Some e
                    \<and> e \<noteq> [] \<and> map_of e ''key'' = Some (PStr (safe_key t (key_field ex_cfg)))
                    \<and> dget e ''Assignee'' = dget t ''Assignee''
                    \<and> (ex_meta \<noteq> [] \<or> map_of t ''Summary'' \<noteq> None \<longrightarrow>
                         dget e ''Summary'' = dget_default t ''Summary'' (PStr '''')))"
    by blast
  have len: "length ex_meta = 3" "nrows ex_embs = 3"
    by (simp_all add: ex_meta_def ex_embs_def nrows_def)
  have nonempty: "ex_meta \<noteq> []" by (simp add: ex_meta_def)
  from spec [OF k, of 1] len
  have one: "map_of meta' 1 = Some [(''key'', PStr ''A-1''), (''Summary'', PStr ''login fails again'')]"
    by (simp add: ex_meta_def)
  from bspec [OF n mem] need kf obtain i e0 where
    "length ex_meta \<le> i" "i < length meta'" "map_of meta' (int i) = Some e0"
    "map_of e0 ''key'' = Some (PStr (safe_key ?t ''Issue key''))"
    "ex_meta \<noteq> [] \<or> map_of ?t ''Summary'' \<noteq> None \<longrightarrow>
       dget e0 ''Summary'' = dget_default ?t ''Summary'' (PStr '''')"
    by auto
  with len nonempty sk sm have
    new: "\<exists>i e. 3 \<le> i \<and> i < length meta' \<and> map_of meta' (int i) = Some e
            \<and> map_of e ''key'' = Some (PStr ''A-1'')
            \<and> dget e ''Summary'' = PStr ''login fails on SSO''"
    by auto
  from m e t l s1 len one new need show ?thesis unfolding F by simp
qed

text \<open>
  C7 as stated fails on stores that the loader accepts: when the matrix file is missing
  the run rebuilds from the batch and row 0 changes from \<^verbatim>\<open>A-1\<close>'s old entry to
  its new one; when the row indices are 1 and 2 the run writes its first new entry over
  row 2.
\<close>

theorem rows_overwritten_counterexample:
  "meta_file ex_half_store =
     Some [(0, [(''key'', PStr ''A-1''), (''Summary'', PStr ''login fails'')]),
           (1, [(''key'', PStr ''A-1''), (''Summary'', PStr ''login fails again'')]),
           (2, [(''key'', PStr ''B-2''), (''Summary'', PStr ''login broken'')])]
   \<and> index_status (add_index_new_Data ex_model ex_batch ex_cfg ex_half_store)
       = Some (built_from_all, 2)
   \<and> meta_file (files_after ex_half_store
                  (add_index_new_Data ex_model ex_batch ex_cfg ex_half_store))
       = Some [(0, [(''key'', PStr ''A-1''), (''Issue id'', PNone), (''Issue key'', PStr ''A-1''),
                    (''Summary'', PStr ''login fails on SSO''), (''Assignee'', PNone)]),
               (1, [(''key'', PStr ''C-3''), (''Issue id'', PNone), (''Issue key'', PStr ''C-3''),
                    (''Summary'', PStr ''export hangs''), (''Assignee'', PNone)])]
   \<and> index_status (add_index_new_Data ex_model ex_batch ex_cfg ex_sparse_store)
       = Some (incremental_ok, 2)
   \<and> meta_file (files_after ex_sparse_store
                  (add_index_new_Data ex_model ex_batch ex_cfg ex_sparse_store))
       = Some [(1, [(''key'', PStr ''A-1''), (''Summary'', PStr ''login fails'')]),
               (2, [(''key'', PStr ''A-1''), (''Issue id'', PNone), (''Issue key'', PStr ''A-1''),
                    (''Summary'', PStr ''login fails on SSO''), (''Assignee'', PNone)]),
               (3, [(''key'', PStr ''C-3''), (''Issue id'', PNone), (''Issue key'', PStr ''C-3''),
                    (''Summary'', PStr ''export hangs''), (''Assignee'', PNone)])]"
  by (simp add: index_status_def files_after_def idx_defs)

end
